theory Spec2Isabelle
  imports Complex_Main "HOL-Library.Multiset"
begin

section \<open>Conventions of the embedding\<close>

text \<open>
  The simulator is TypeScript/JavaScript. Its numbers are modelled exactly: draw counts,
  pity counters and occurrence counts are natural numbers, weights, probabilities and
  the values of \<^verbatim>\<open>Math.random()\<close> are real numbers (no rounding is modelled).
  A JavaScript object used as a dictionary is a map; where the code enumerates the keys
  of the object it is the list of the entries in the order of the enumeration.

  Randomness is an explicit argument: a random source \<open>rng\<close> gives the value of the
  \<open>i\<close>-th call of \<^verbatim>\<open>Math.random()\<close>, and every function that draws random numbers
  takes the index of the next call and returns the index after its last call.
\<close>

type_synonym rng = "nat \<Rightarrow> real"

text \<open>The random source whose every value is \<open>u\<close> (used for concrete runs).\<close>

definition constantRandom :: "real \<Rightarrow> rng" where
  "constantRandom u i = u"

text \<open>The random source whose \<open>k\<close>-th value is \<open>v\<close> and whose other values are \<open>u\<close>.\<close>

definition randomExcept :: "real \<Rightarrow> nat \<Rightarrow> real \<Rightarrow> rng" where
  "randomExcept u k v i = (if i = k then v else u)"

section \<open>The pity trial: \<^verbatim>\<open>gatcha\<close>\<close>

text \<open>
  \<^verbatim>\<open>const chuhuo = Math.floor(Math.random() * 100) + 1;\<close>
\<close>

definition rollChuhuo :: "real \<Rightarrow> nat" where
  "rollChuhuo u = nat \<lfloor>u * 100\<rfloor> + 1"

text \<open>
  The first loop of \<^verbatim>\<open>gatcha\<close>,
  \<^verbatim>\<open>while (xunfang < 50) { chuhuo = ...; xunfang += 1; if (chuhuo <= currentProb) return xunfang - basePity; }\<close>.
  It either returns from \<^verbatim>\<open>gatcha\<close> (\<open>Return\<close>, with the returned value and the next
  random index) or falls through to the second loop (\<open>Fallthrough\<close>, with the value of
  \<^verbatim>\<open>xunfang\<close> and the next random index).
\<close>

datatype loop1 = Return nat nat | Fallthrough nat nat

function gatchaLoop1 :: "rng \<Rightarrow> nat \<Rightarrow> nat \<Rightarrow> nat \<Rightarrow> nat \<Rightarrow> loop1" where
  "gatchaLoop1 rng basePity currentProb xunfang i =
     (if xunfang < 50 then
        (if rollChuhuo (rng i) \<le> currentProb then Return (xunfang + 1 - basePity) (i + 1)
         else gatchaLoop1 rng basePity currentProb (xunfang + 1) (i + 1))
      else Fallthrough xunfang i)"
  by pat_completeness auto
termination
  by (relation "measure (\<lambda>(rng, basePity, currentProb, xunfang, i). 50 - xunfang)") auto

declare gatchaLoop1.simps [simp del]

text \<open>
  The second loop,
  \<^verbatim>\<open>while (true) { currentProb += 2; chuhuo = ...; if (chuhuo <= currentProb) return xunfang - basePity; xunfang += 1; }\<close>.
  Nothing in the loop itself bounds it, so it is a partial function: \<open>None\<close> is the
  loop that never returns.
\<close>

partial_function (option) gatchaLoop2 ::
  "rng \<Rightarrow> nat \<Rightarrow> nat \<Rightarrow> nat \<Rightarrow> nat \<Rightarrow> (nat \<times> nat) option" where
  "gatchaLoop2 rng basePity currentProb xunfang i =
     (if rollChuhuo (rng i) \<le> currentProb + 2 then Some (xunfang - basePity, i + 1)
      else gatchaLoop2 rng basePity (currentProb + 2) (xunfang + 1) (i + 1))"

declare gatchaLoop2.simps [code]

text \<open>
  \<^verbatim>\<open>gatcha(basePity)\<close>: the result is the returned number of draws together with the
  index of the next unused random number, so that the number of loop iterations (one
  random number each) can be read off.
\<close>

definition gatcha :: "rng \<Rightarrow> nat \<Rightarrow> nat \<Rightarrow> (nat \<times> nat) option" where
  "gatcha rng basePity i =
     (case gatchaLoop1 rng basePity (if basePity < 50 then 2 else 2 + (basePity - 50) * 2)
             basePity i of
        Return d j \<Rightarrow> Some (d, j)
      | Fallthrough xunfang j \<Rightarrow>
          gatchaLoop2 rng basePity (if basePity < 50 then 2 else 2 + (basePity - 50) * 2)
            xunfang j)"

section \<open>The weighted selector and the trial runner\<close>

text \<open>
  A category configuration is the JavaScript object
  \<^verbatim>\<open>{ name: { weight, target }, ... }\<close>; its keys are enumerated in insertion order, so it
  is a list of pairs (with distinct names). This is the order of enumeration for names
  that are not array indices; names such as \<^verbatim>\<open>"7"\<close>, which an object enumerates first
  and in numeric order, are not considered.
\<close>

record opcfg =
  weight :: real
  target :: nat

type_synonym operatorConfig = "(string \<times> opcfg) list"

text \<open>
  \<^verbatim>\<open>weightedChoice(items, weights)\<close>. The loop
  \<^verbatim>\<open>for (i ...) { random -= weights[i]; if (random <= 0) return items[i]; }\<close> returns the
  selected item, or \<open>None\<close> when it runs to its end; then \<^verbatim>\<open>items[items.length - 1]\<close> is
  returned, which is \<^verbatim>\<open>undefined\<close> (\<open>None\<close>) for an empty array. The argument \<open>u\<close> is
  the value of \<^verbatim>\<open>Math.random()\<close>.
\<close>

fun weightedChoiceLoop :: "'a list \<Rightarrow> real list \<Rightarrow> real \<Rightarrow> 'a option" where
  "weightedChoiceLoop (x # items) (w # weights) random =
     (if random - w \<le> 0 then Some x else weightedChoiceLoop items weights (random - w))"
| "weightedChoiceLoop _ _ random = None"

definition weightedChoice :: "'a list \<Rightarrow> real list \<Rightarrow> real \<Rightarrow> 'a option" where
  "weightedChoice items weights u =
     (let totalWeight = foldl (\<lambda>sum w. sum + w) 0 weights;
          random = u * totalWeight
      in case weightedChoiceLoop items weights random of
           Some x \<Rightarrow> Some x
         | None \<Rightarrow> (if items = [] then None else Some (last items)))"

text \<open>
  \<^verbatim>\<open>checkCompletion\<close>:
  \<^verbatim>\<open>operators.every(op => operatorConfig[op].target === 0 || statistic[op] >= operatorConfig[op].target)\<close>.
\<close>

definition checkCompletion :: "operatorConfig \<Rightarrow> (string \<rightharpoonup> nat) \<Rightarrow> bool" where
  "checkCompletion operatorConfig statistic =
     list_all (\<lambda>(op, c). target c = 0 \<or>
                 (case statistic op of None \<Rightarrow> False | Some n \<Rightarrow> target c \<le> n))
       operatorConfig"

text \<open>
  \<^verbatim>\<open>statistic[selectedOperator] += 1\<close>. The selector returns one of the operators, each of
  which has a counter; it returns \<^verbatim>\<open>undefined\<close> only for an empty list of operators, and
  then the loop is never entered.
\<close>

definition incrStatistic :: "string option \<Rightarrow> (string \<rightharpoonup> nat) \<Rightarrow> (string \<rightharpoonup> nat)" where
  "incrStatistic selectedOperator statistic =
     (case selectedOperator of
        None \<Rightarrow> statistic
      | Some op \<Rightarrow> statistic(op \<mapsto> (case statistic op of None \<Rightarrow> 0 | Some n \<Rightarrow> n) + 1))"

text \<open>
  The loop of \<^verbatim>\<open>chouShuTongJi\<close>:
  \<^verbatim>\<open>while (!checkCompletion()) { drawsThisRound = gatcha(currentPity); total += drawsThisRound; currentPity = 0; selectedOperator = weightedChoice(operators, weights); statistic[selectedOperator] += 1; }\<close>.
  It returns \<^verbatim>\<open>total\<close> (written \<open>total'\<close>, since \<open>total\<close> is a constant of HOL),
  \<^verbatim>\<open>statistic\<close> and the next random index, and it need not terminate.
\<close>

partial_function (option) chouShuTongJiLoop ::
  "operatorConfig \<Rightarrow> rng \<Rightarrow> nat \<Rightarrow> nat \<Rightarrow> (string \<rightharpoonup> nat) \<Rightarrow> nat
     \<Rightarrow> (nat \<times> (string \<rightharpoonup> nat) \<times> nat) option" where
  "chouShuTongJiLoop operatorConfig rng currentPity total' statistic i =
     (if checkCompletion operatorConfig statistic then Some (total', statistic, i)
      else
        (case gatcha rng currentPity i of
           None \<Rightarrow> None
         | Some (drawsThisRound, j) \<Rightarrow>
             chouShuTongJiLoop operatorConfig rng 0 (total' + drawsThisRound)
               (incrStatistic
                  (weightedChoice (map fst operatorConfig)
                     (map (\<lambda>(op, c). weight c) operatorConfig) (rng j))
                  statistic)
               (j + 1)))"

declare chouShuTongJiLoop.simps [code]

record simulationResult =
  total' :: nat
  statistic :: "string \<rightharpoonup> nat"

datatype error = EmptyConfig

text \<open>
  \<^verbatim>\<open>chouShuTongJi(operatorConfig, basePity)\<close> as the worker script has it: an empty
  configuration throws, every counter of \<^verbatim>\<open>statistic\<close> starts at 0. (The copy of the
  function in the main thread differs only in that it does not throw.)
\<close>

definition initStatistic :: "operatorConfig \<Rightarrow> (string \<rightharpoonup> nat)" where
  "initStatistic operatorConfig = fold (\<lambda>op statistic. statistic(op \<mapsto> 0)) (map fst operatorConfig) Map.empty"

definition chouShuTongJi ::
  "operatorConfig \<Rightarrow> nat \<Rightarrow> rng \<Rightarrow> nat \<Rightarrow> (error + simulationResult \<times> nat) option" where
  "chouShuTongJi operatorConfig basePity rng i =
     (if operatorConfig = [] then Some (Inl EmptyConfig)
      else
        (case chouShuTongJiLoop operatorConfig rng basePity 0 (initStatistic operatorConfig) i of
           None \<Rightarrow> None
         | Some (t, s, j) \<Rightarrow> Some (Inr (\<lparr>total' = t, statistic = s\<rparr>, j))))"

section \<open>The streaming aggregator\<close>

text \<open>
  The result a worker posts for one trial:
  \<^verbatim>\<open>{ totalDraws: result.total, characterCounts: result.statistic }\<close>.
\<close>

record singleSimulationResult =
  res_totalDraws :: nat
  res_characterCounts :: "string \<rightharpoonup> nat"

text \<open>
  The bucket \<^verbatim>\<open>drawsBucket\<close> maps a number of draws to the number of trials that took
  so many draws. Its keys are non-negative integers, which a JavaScript object enumerates
  in ascending order whatever the order of insertion: the bucket is the list of its
  entries \<open>(draws, count)\<close> in that order.
\<close>

type_synonym drawsBucket = "(nat \<times> nat) list"

text \<open>
  The state the manager keeps for a run (an entry of \<^verbatim>\<open>activeTasks\<close>). The promise's
  \<^verbatim>\<open>resolve\<close> and \<^verbatim>\<open>reject\<close> are the outcome returned by the run functions below; the
  progress callback has no effect on the state and is left out.
\<close>

record task =
  task_totalSimulations :: nat
  task_completedSimulations :: nat
  task_pendingSimulations :: "nat list"
  task_operatorConfig :: operatorConfig
  task_basePity :: nat
  task_drawsBucket :: drawsBucket
  task_characterCounts :: "string \<rightharpoonup> nat"

text \<open>
  The bucket increment of \<^verbatim>\<open>handleWorkerComplete\<close>:
  \<^verbatim>\<open>if (task.drawsBucket[draws]) { task.drawsBucket[draws]++; } else { task.drawsBucket[draws] = 1; }\<close>
  (an absent entry and the entry 0 are both falsy): the entry of \<open>draws\<close> is incremented
  where it is, or created with the count 1 at its place in the order of the keys.
\<close>

fun bucketIncrement :: "nat \<Rightarrow> drawsBucket \<Rightarrow> drawsBucket" where
  "bucketIncrement draws [] = [(draws, 1)]"
| "bucketIncrement draws ((k, n) # drawsBucket) =
     (if draws = k then (k, if n \<noteq> 0 then n + 1 else 1) # drawsBucket
      else if draws < k then (draws, 1) # (k, n) # drawsBucket
      else (k, n) # bucketIncrement draws drawsBucket)"

text \<open>
  The accumulation of the per-category counts,
  \<^verbatim>\<open>Object.keys(result.characterCounts).forEach(char => { if (!task.characterCounts[char]) task.characterCounts[char] = 0; task.characterCounts[char] += result.characterCounts[char]; })\<close>.
  Each iteration touches the entry of its own key only, so the loop is given key by key.
\<close>

definition addCharacterCounts ::
  "(string \<rightharpoonup> nat) \<Rightarrow> (string \<rightharpoonup> nat) \<Rightarrow> (string \<rightharpoonup> nat)" where
  "addCharacterCounts resultCounts taskCounts =
     (\<lambda>char. case resultCounts char of
                None \<Rightarrow> taskCounts char
              | Some n \<Rightarrow> Some ((case taskCounts char of None \<Rightarrow> 0 | Some m \<Rightarrow> m) + n))"

text \<open>
  The fold of one completed trial into the run state, as \<^verbatim>\<open>handleWorkerComplete\<close> does it:
  \<^verbatim>\<open>task.completedSimulations++\<close>, the bucket increment and the accumulation of the
  counts.
\<close>

definition foldResult :: "singleSimulationResult \<Rightarrow> task \<Rightarrow> task" where
  "foldResult result t =
     t\<lparr>task_completedSimulations := task_completedSimulations t + 1,
       task_drawsBucket := bucketIncrement (res_totalDraws result) (task_drawsBucket t),
       task_characterCounts :=
         addCharacterCounts (res_characterCounts result) (task_characterCounts t)\<rparr>"

text \<open>The count of a category in a dictionary of counts, \<^verbatim>\<open>counts[char] || 0\<close>.\<close>

definition countOf :: "(string \<rightharpoonup> nat) \<Rightarrow> string \<Rightarrow> nat" where
  "countOf counts char = (case counts char of None \<Rightarrow> 0 | Some n \<Rightarrow> n)"

text \<open>The sum of the counts of a bucket, \<^verbatim>\<open>sum(drawsBucket.values())\<close>.\<close>

definition bucketSum :: "drawsBucket \<Rightarrow> nat" where
  "bucketSum drawsBucket = sum_list (map snd drawsBucket)"

subsection \<open>\<^verbatim>\<open>calculateStatisticalData\<close>\<close>

text \<open>
  \<^verbatim>\<open>Object.entries(drawsBucket).map(([draws, count]) => ({ draws: parseInt(draws), count })).sort((a, b) => a.draws - b.draws)\<close>:
  the entries of the bucket by ascending number of draws.
\<close>

definition bucketEntries :: "drawsBucket \<Rightarrow> (nat \<times> nat) list" where
  "bucketEntries drawsBucket = sort_key fst (map (\<lambda>(draws, cnt). (draws, cnt)) drawsBucket)"

text \<open>
  The median walk:
  \<^verbatim>\<open>let median = mean; for (const entry of bucketEntries) { currentCount += entry.count; if (currentCount >= medianIndex) { median = entry.draws; break; } }\<close>.
\<close>

fun medianWalk :: "(nat \<times> nat) list \<Rightarrow> nat \<Rightarrow> nat \<Rightarrow> real \<Rightarrow> real" where
  "medianWalk [] medianIndex currentCount median = median"
| "medianWalk ((draws, cnt) # entries) medianIndex currentCount median =
     (if medianIndex \<le> currentCount + cnt then real draws
      else medianWalk entries medianIndex (currentCount + cnt) median)"

text \<open>
  The quartile walk:
  \<^verbatim>\<open>for (const entry of bucketEntries) { currentCount += entry.count; if (p25 === mean && currentCount >= p25Index) { p25 = entry.draws; } if (currentCount >= p75Index) { p75 = entry.draws; break; } }\<close>.
\<close>

fun quartileWalk ::
  "(nat \<times> nat) list \<Rightarrow> real \<Rightarrow> nat \<Rightarrow> nat \<Rightarrow> nat \<Rightarrow> real \<Rightarrow> real \<Rightarrow> real \<times> real" where
  "quartileWalk [] mean p25Index p75Index currentCount p25 p75 = (p25, p75)"
| "quartileWalk ((draws, cnt) # entries) mean p25Index p75Index currentCount p25 p75 =
     (let p25new = (if p25 = mean \<and> p25Index \<le> currentCount + cnt then real draws else p25)
      in if p75Index \<le> currentCount + cnt then (p25new, real draws)
         else quartileWalk entries mean p25Index p75Index (currentCount + cnt) p25new p75)"

record sigmaRange =
  range_min :: real
  range_max :: real
  range_coverage :: real

text \<open>
  \<^verbatim>\<open>sigmaKMin = Math.max(0, mean - K * sigma); sigmaKMax = mean + K * sigma; sigmaKCount = bucketEntries.reduce((count, entry) => entry.draws >= sigmaKMin && entry.draws <= sigmaKMax ? count + entry.count : count, 0); sigmaKCoverage = (sigmaKCount / totalCount) * 100\<close>.
\<close>

definition sigmaKRange :: "(nat \<times> nat) list \<Rightarrow> nat \<Rightarrow> real \<Rightarrow> real \<Rightarrow> real \<Rightarrow> sigmaRange" where
  "sigmaKRange entries totalCount mean sigma K =
     (let sigmaMin = max 0 (mean - K * sigma);
          sigmaMax = mean + K * sigma;
          sigmaCount = foldl (\<lambda>n (draws, cnt).
                          if sigmaMin \<le> real draws \<and> real draws \<le> sigmaMax then n + cnt
                          else n) 0 entries
      in \<lparr>range_min = sigmaMin, range_max = sigmaMax,
          range_coverage = real sigmaCount / real totalCount * 100\<rparr>)"

record statisticalData =
  sd_mean :: real
  sd_median :: real
  sd_p25 :: real
  sd_p75 :: real
  sd_sigma :: real
  sd_sigma1Range :: sigmaRange
  sd_sigma2Range :: sigmaRange
  sd_sigma3Range :: sigmaRange

text \<open>
  \<^verbatim>\<open>calculateStatisticalData(drawsBucket)\<close>. Every division of the function is by
  \<^verbatim>\<open>totalCount\<close>; when that is 0 (an empty bucket) JavaScript computes \<^verbatim>\<open>0 / 0 = NaN\<close>
  and every field of the result is \<^verbatim>\<open>NaN\<close>: that result is \<open>None\<close>.
  \<^verbatim>\<open>Math.floor(totalCount / 2)\<close>, \<^verbatim>\<open>Math.floor(totalCount * 0.25)\<close> and
  \<^verbatim>\<open>Math.floor(totalCount * 0.75)\<close> are the floors of the exact products.
\<close>

definition calculateStatisticalData :: "drawsBucket \<Rightarrow> statisticalData option" where
  "calculateStatisticalData drawsBucket =
     (let entries = bucketEntries drawsBucket;
          totalCount = foldl (\<lambda>sum (draws, cnt). sum + cnt) 0 entries
      in if totalCount = 0 then None
         else
           let mean = real (foldl (\<lambda>sum (draws, cnt). sum + draws * cnt) 0 entries)
                        / real totalCount;
               medianIndex = nat \<lfloor>real totalCount / 2\<rfloor>;
               median = medianWalk entries medianIndex 0 mean;
               p25Index = nat \<lfloor>real totalCount * 0.25\<rfloor>;
               p75Index = nat \<lfloor>real totalCount * 0.75\<rfloor>;
               quartiles = quartileWalk entries mean p25Index p75Index 0 mean mean;
               variance = foldl (\<lambda>sum (draws, cnt). sum + real cnt * (real draws - mean)\<^sup>2)
                            0 entries / real totalCount;
               sigma = sqrt variance
           in Some \<lparr>sd_mean = mean, sd_median = median, sd_p25 = fst quartiles,
                     sd_p75 = snd quartiles, sd_sigma = sigma,
                     sd_sigma1Range = sigmaKRange entries totalCount mean sigma 1,
                     sd_sigma2Range = sigmaKRange entries totalCount mean sigma 2,
                     sd_sigma3Range = sigmaKRange entries totalCount mean sigma 3\<rparr>)"

section \<open>The batched kernel path: probability tables\<close>

text \<open>
  The tables are \<^verbatim>\<open>Float32Array\<close>s; here their entries are exact. The one operation whose
  exceptional values matter is division (by a zero normalization factor or a zero total
  weight), so the entries that result from a division are JavaScript numbers with the
  infinities and \<^verbatim>\<open>NaN\<close> written out.
\<close>

datatype jsnum = Num real | PosInfinity | NegInfinity | NaN

definition jsDivide :: "real \<Rightarrow> real \<Rightarrow> jsnum" where
  "jsDivide x y =
     (if y \<noteq> 0 then Num (x / y)
      else if 0 < x then PosInfinity else if x < 0 then NegInfinity else NaN)"

fun jsPlus :: "jsnum \<Rightarrow> jsnum \<Rightarrow> jsnum" where
  "jsPlus (Num x) (Num y) = Num (x + y)"
| "jsPlus NaN v = NaN"
| "jsPlus v NaN = NaN"
| "jsPlus PosInfinity NegInfinity = NaN"
| "jsPlus NegInfinity PosInfinity = NaN"
| "jsPlus PosInfinity v = PosInfinity"
| "jsPlus v PosInfinity = PosInfinity"
| "jsPlus NegInfinity v = NegInfinity"
| "jsPlus v NegInfinity = NegInfinity"

text \<open>\<open>v - r\<close> for a finite \<open>r\<close>, and the tests \<open>v >= 0\<close> and \<open>v > 0\<close>.\<close>

fun jsMinus :: "jsnum \<Rightarrow> real \<Rightarrow> jsnum" where
  "jsMinus (Num x) r = Num (x - r)"
| "jsMinus v r = v"

fun jsNonNegative :: "jsnum \<Rightarrow> bool" where
  "jsNonNegative (Num x) = (0 \<le> x)"
| "jsNonNegative PosInfinity = True"
| "jsNonNegative v = False"

fun jsPositive :: "jsnum \<Rightarrow> bool" where
  "jsPositive (Num x) = (0 < x)"
| "jsPositive PosInfinity = True"
| "jsPositive v = False"

subsection \<open>The table of cumulative hit probabilities\<close>

text \<open>
  One iteration of the two loops that build the PMF in \<^verbatim>\<open>buildProbabilityLookupTable\<close>:
  \<^verbatim>\<open>pmf[pity] = survival * p; survival *= (1 - p);\<close>.
\<close>

definition pmfStep :: "real \<Rightarrow> nat \<Rightarrow> real list \<times> real \<Rightarrow> real list \<times> real" where
  "pmfStep p pity = (\<lambda>(pmf, survival). (pmf[pity := survival * p], survival * (1 - p)))"

text \<open>
  The hit probability of the second loop (pity 50 to 98):
  \<^verbatim>\<open>const p = Math.min(1.0, 0.02 + 0.02 * (pity - 48));\<close>.
\<close>

definition softPityProbability :: "nat \<Rightarrow> real" where
  "softPityProbability pity = min 1.0 (0.02 + 0.02 * (real pity - 48))"

text \<open>
  \<^verbatim>\<open>pmf = new Float32Array(100); survival = 1.0; for (pity = 0; pity < 50; pity++) { p = 0.02; ... } for (pity = 50; pity < 99; pity++) { p = Math.min(...); ... } pmf[99] = survival;\<close>
\<close>

definition buildPMF :: "real list" where
  "buildPMF =
     (case fold (\<lambda>pity. pmfStep (softPityProbability pity) pity) [50..<99]
             (fold (pmfStep 0.02) [0..<50] (replicate 100 0, 1.0)) of
        (pmf, survival) \<Rightarrow> pmf[99 := survival])"

text \<open>
  \<^verbatim>\<open>cdf = new Float32Array(100); cdf[0] = pmf[0]; for (i = 1; i < 100; i++) cdf[i] = cdf[i - 1] + pmf[i];\<close>
\<close>

definition buildCDF :: "real list \<Rightarrow> real list" where
  "buildCDF pmf =
     fold (\<lambda>i cdf. cdf[i := cdf ! (i - 1) + pmf ! i]) [1..<100] ((replicate 100 0)[0 := pmf ! 0])"

text \<open>
  \<^verbatim>\<open>const total = cdf[99]; for (i = 0; i < 100; i++) cdf[i] /= total;\<close>
  (\<open>total\<close> is 1, see \<open>buildCDF_total\<close> below, so this division is by a non-zero number.)
\<close>

definition normalizeCDF :: "real list \<Rightarrow> real list" where
  "normalizeCDF cdf = map (\<lambda>x. x / (cdf ! 99)) cdf"

datatype gpuError = RangeError | DispatchFailure string

text \<open>
  The table \<^verbatim>\<open>gachaTable\<close> for a base pity:
  \<^verbatim>\<open>if (basePity > 0) { normalizationFactor = 1 - gachaTable[basePity - 1]; gachaTable.set(slice(gachaTable.slice(basePity, 100)) divided by normalizationFactor, basePity); }\<close>.
  \<^verbatim>\<open>TypedArray.set\<close> throws a \<^verbatim>\<open>RangeError\<close> when the offset \<open>basePity\<close> is beyond the
  length 100 of the table.
\<close>

definition buildGachaTable :: "nat \<Rightarrow> gpuError + jsnum list" where
  "buildGachaTable basePity =
     (let gachaTable = normalizeCDF (buildCDF buildPMF)
      in if 0 < basePity then
           (if 100 < basePity then Inl RangeError
            else
              let normalizationFactor = 1 - gachaTable ! (basePity - 1)
              in Inr (map Num (take basePity gachaTable) @
                      map (\<lambda>x. jsDivide x normalizationFactor) (drop basePity gachaTable)))
         else Inr (map Num gachaTable))"

subsection \<open>The table of cumulative category weights\<close>

text \<open>
  The batched path is given the categories as a list of \<^verbatim>\<open>{ name, weight }\<close>.
  \<^verbatim>\<open>totalWeight = operators.reduce((sum, op) => sum + op.weight, 0); pmf[i] = operators[i].weight / totalWeight; operatorWeights[0] = pmf[0]; operatorWeights[i] = operatorWeights[i - 1] + pmf[i]; operatorWeights[operators.length - 1] = 1.0;\<close>
  For an empty list the table has length 0 (the writes of the default table fall outside
  it).
\<close>

type_synonym operatorInfo = "string \<times> real"

definition buildOperatorWeights :: "operatorInfo list \<Rightarrow> jsnum list" where
  "buildOperatorWeights operators =
     (if operators = [] then []
      else
        let n = length operators;
            totalWeight = foldl (\<lambda>sum op. sum + snd op) 0 operators;
            pmf = map (\<lambda>op. jsDivide (snd op) totalWeight) operators;
            operatorWeights =
              fold (\<lambda>i ow. ow[i := jsPlus (ow ! (i - 1)) (pmf ! i)]) [1..<n]
                ((replicate n (Num 0))[0 := pmf ! 0])
        in operatorWeights[n - 1 := Num 1])"

subsection \<open>The kernel and the decoding of its results\<close>

text \<open>
  The compute shader, for one lane with the random numbers \<open>randomK1\<close> and \<open>randomK2\<close>:
  \<^verbatim>\<open>drawsResults[lane * drawsPerGroup + i] = gachaTable[basePity + i] - randomK1\<close> for
  \<open>i < drawsPerGroup = 100 - basePity\<close>, and
  \<^verbatim>\<open>operatorResults[lane * operatorCount + i] = operatorWeights[i] - randomK2\<close>.
\<close>

definition generateGachaDifferences :: "jsnum list \<Rightarrow> nat \<Rightarrow> real \<Rightarrow> jsnum list" where
  "generateGachaDifferences gachaTable basePity randomK1 =
     map (\<lambda>i. jsMinus (gachaTable ! (basePity + i)) randomK1) [0..<100 - basePity]"

definition generateOperatorDifferences :: "jsnum list \<Rightarrow> real \<Rightarrow> jsnum list" where
  "generateOperatorDifferences operatorWeights randomK2 =
     map (\<lambda>cdf_value. jsMinus cdf_value randomK2) operatorWeights"

text \<open>The index of the first element of a list that satisfies a test.\<close>

fun firstIndex :: "('a \<Rightarrow> bool) \<Rightarrow> 'a list \<Rightarrow> nat option" where
  "firstIndex P [] = None"
| "firstIndex P (x # xs) = (if P x then Some 0 else map_option Suc (firstIndex P xs))"

text \<open>
  The host-side decoding of one lane in \<^verbatim>\<open>GPUManager.runSimulation\<close>: the first
  \<^verbatim>\<open>differenceValue >= 0\<close> of the draws group gives
  \<^verbatim>\<open>firstHitDraw = basePity + drawIdx + 1\<close>, the first \<^verbatim>\<open>diffValue > 0\<close> of the operator
  group gives the selected operator; the lane yields a result
  \<^verbatim>\<open>{ name, draws }\<close> when \<^verbatim>\<open>firstHitDraw > 0 && selectedOperatorName\<close>.
\<close>

definition decodeLane ::
  "operatorInfo list \<Rightarrow> nat \<Rightarrow> jsnum list \<Rightarrow> jsnum list \<Rightarrow> (string \<times> nat) option" where
  "decodeLane operators basePity drawsGroup operatorGroup =
     (case firstIndex jsNonNegative drawsGroup of
        None \<Rightarrow> None
      | Some drawIdx \<Rightarrow>
          (case firstIndex jsPositive operatorGroup of
             None \<Rightarrow> None
           | Some selectedOperatorIdx \<Rightarrow>
               (if fst (operators ! selectedOperatorIdx) = [] then None
                else Some (fst (operators ! selectedOperatorIdx), basePity + drawIdx + 1))))"

text \<open>
  One call of \<^verbatim>\<open>gpuManager.runSimulation\<close>. What the backend does is given from outside:
  the call throws (initialization or dispatch failure), or it runs one batch whose lanes
  get the given pairs of random numbers.
\<close>

datatype dispatch = Throws string | Lanes "(real \<times> real) list"

definition gpuRunSimulation ::
  "operatorInfo list \<Rightarrow> nat \<Rightarrow> dispatch \<Rightarrow> gpuError + (string \<times> nat) list" where
  "gpuRunSimulation operators basePity d =
     (case d of
        Throws msg \<Rightarrow> Inl (DispatchFailure msg)
      | Lanes randomNumbers \<Rightarrow>
          (case buildGachaTable basePity of
             Inl e \<Rightarrow> Inl e
           | Inr gachaTable \<Rightarrow>
               Inr (List.map_filter
                      (\<lambda>(randomK1, randomK2).
                         decodeLane operators basePity
                           (generateGachaDifferences gachaTable basePity randomK1)
                           (generateOperatorDifferences (buildOperatorWeights operators) randomK2))
                      randomNumbers)))"

section \<open>The run functions of the manager\<close>

text \<open>
  The statistics a run resolves with. \<^verbatim>\<open>characterStats\<close> is given by its \<^verbatim>\<open>count\<close>
  fields, which are the accumulated per-category counts; the cumulative probability
  curve and the histogram, also derived from the bucket, are left out.
\<close>

record simulationStatistics =
  stats_drawsBucket :: drawsBucket
  stats_characterCounts :: "string \<rightharpoonup> nat"
  stats_statisticalData :: "statisticalData option"
  stats_totalSimulations :: nat

definition makeStatistics ::
  "drawsBucket \<Rightarrow> (string \<rightharpoonup> nat) \<Rightarrow> nat \<Rightarrow> simulationStatistics" where
  "makeStatistics drawsBucket characterCounts totalSimulations =
     \<lparr>stats_drawsBucket = drawsBucket, stats_characterCounts = characterCounts,
      stats_statisticalData = calculateStatisticalData drawsBucket,
      stats_totalSimulations = totalSimulations\<rparr>"

text \<open>How the promise of a run is settled.\<close>

datatype 'a outcome = Resolved 'a | Rejected error

subsection \<open>The worker-pool path\<close>

text \<open>
  The message a worker sends back for a task (\<^verbatim>\<open>self.onmessage\<close> of the worker script);
  \<open>None\<close> when its trial never returns.
\<close>

datatype workerMessage = Complete singleSimulationResult | ErrorMessage error

definition workerOnMessage :: "operatorConfig \<Rightarrow> nat \<Rightarrow> rng \<Rightarrow> workerMessage option" where
  "workerOnMessage operatorConfig basePity rng =
     (case chouShuTongJi operatorConfig basePity rng 0 of
        None \<Rightarrow> None
      | Some (Inl e) \<Rightarrow> Some (ErrorMessage e)
      | Some (Inr (result, j)) \<Rightarrow>
          Some (Complete \<lparr>res_totalDraws = total' result,
                          res_characterCounts = statistic result\<rparr>))"

text \<open>
  The manager during one run (runs are considered one at a time): the set
  \<^verbatim>\<open>availableWorkers\<close> (a JavaScript \<^verbatim>\<open>Set\<close>, in insertion order), the run's entry of
  \<^verbatim>\<open>activeTasks\<close>, and for every worker that was posted a task and has not answered yet
  the simulation index of that task.
\<close>

record manager =
  mgr_availableWorkers :: "nat list"
  mgr_activeTask :: "task option"
  mgr_posted :: "nat \<rightharpoonup> nat"

definition setAdd :: "nat \<Rightarrow> nat list \<Rightarrow> nat list" where
  "setAdd w ws = (if w \<in> set ws then ws else ws @ [w])"

text \<open>
  \<^verbatim>\<open>assignNextSimulation\<close>: nothing happens without a task, a pending simulation and an
  available worker; otherwise
  \<^verbatim>\<open>simulationIndex = task.pendingSimulations.shift(); workerId = Array.from(this.availableWorkers)[0]; this.availableWorkers.delete(workerId); this.workers[workerId].postMessage(workerTask);\<close>.
\<close>

definition assignNextSimulation :: "manager \<Rightarrow> manager" where
  "assignNextSimulation mgr =
     (case mgr_activeTask mgr of
        None \<Rightarrow> mgr
      | Some t \<Rightarrow>
          if task_pendingSimulations t = [] then mgr
          else if mgr_availableWorkers mgr = [] then mgr
          else
            let simulationIndex = hd (task_pendingSimulations t);
                workerId = hd (mgr_availableWorkers mgr)
            in mgr\<lparr>mgr_availableWorkers := removeAll workerId (mgr_availableWorkers mgr),
                   mgr_activeTask :=
                     Some (t\<lparr>task_pendingSimulations := tl (task_pendingSimulations t)\<rparr>),
                   mgr_posted := (mgr_posted mgr)(workerId \<mapsto> simulationIndex)\<rparr>)"

text \<open>
  \<^verbatim>\<open>completeTask\<close>: the promise is resolved with the statistics of the task, the task is
  deleted and, no task being left, the worker pool is released.
\<close>

definition completeTask :: "task \<Rightarrow> manager \<Rightarrow> manager \<times> simulationStatistics outcome option" where
  "completeTask t mgr =
     (mgr\<lparr>mgr_availableWorkers := [], mgr_activeTask := None, mgr_posted := Map.empty\<rparr>,
      Some (Resolved (makeStatistics (task_drawsBucket t) (task_characterCounts t)
                        (task_totalSimulations t))))"

text \<open>
  \<^verbatim>\<open>handleWorkerComplete\<close>: the worker returns to the available set, the result is folded
  into the task, the next pending simulation is assigned, and the task is completed
  \<^verbatim>\<open>if (task.completedSimulations >= task.totalSimulations)\<close>.
\<close>

definition handleWorkerComplete ::
  "nat \<Rightarrow> singleSimulationResult \<Rightarrow> manager \<Rightarrow> manager \<times> simulationStatistics outcome option" where
  "handleWorkerComplete workerId result mgr =
     (case mgr_activeTask mgr of
        None \<Rightarrow> (mgr, None)
      | Some t \<Rightarrow>
          let mgr2 = assignNextSimulation
                       (mgr\<lparr>mgr_availableWorkers := setAdd workerId (mgr_availableWorkers mgr),
                            mgr_activeTask := Some (foldResult result t)\<rparr>)
          in (case mgr_activeTask mgr2 of
                None \<Rightarrow> (mgr2, None)
              | Some t2 \<Rightarrow>
                  if task_totalSimulations t2 \<le> task_completedSimulations t2
                  then completeTask t2 mgr2 else (mgr2, None)))"

text \<open>\<^verbatim>\<open>handleWorkerError\<close>: the promise is rejected and the task deleted.\<close>

definition handleWorkerError :: "error \<Rightarrow> manager \<Rightarrow> manager \<times> simulationStatistics outcome option" where
  "handleWorkerError e mgr =
     (case mgr_activeTask mgr of
        None \<Rightarrow> (mgr, None)
      | Some t \<Rightarrow> (mgr\<lparr>mgr_activeTask := None\<rparr>, Some (Rejected e)))"

definition handleWorkerMessage ::
  "nat \<Rightarrow> workerMessage \<Rightarrow> manager \<Rightarrow> manager \<times> simulationStatistics outcome option" where
  "handleWorkerMessage workerId msg mgr =
     (case msg of
        Complete result \<Rightarrow> handleWorkerComplete workerId result mgr
      | ErrorMessage e \<Rightarrow> handleWorkerError e mgr)"

text \<open>
  The environment of the worker-pool path: the size of the pool, the random source of the
  trial of each simulation index, and the order in which workers finish (a worker that
  holds no task sends nothing).
\<close>

record cpuEnv =
  env_workerCount :: nat
  env_rngs :: "nat \<Rightarrow> rng"
  env_schedule :: "nat list"

definition workerFinishes ::
  "(nat \<Rightarrow> rng) \<Rightarrow> nat \<Rightarrow> manager \<Rightarrow> manager \<times> simulationStatistics outcome option" where
  "workerFinishes rngs workerId mgr =
     (case mgr_posted mgr workerId of
        None \<Rightarrow> (mgr, None)
      | Some simulationIndex \<Rightarrow>
          (case mgr_activeTask mgr of
             None \<Rightarrow> (mgr, None)
           | Some t \<Rightarrow>
               (case workerOnMessage (task_operatorConfig t) (task_basePity t)
                       (rngs simulationIndex) of
                  None \<Rightarrow> (mgr, None)
                | Some msg \<Rightarrow>
                    handleWorkerMessage workerId msg
                      (mgr\<lparr>mgr_posted := (mgr_posted mgr)(workerId := None)\<rparr>))))"

text \<open>
  The messages are handled one after the other until the promise is settled; \<open>None\<close> is
  the promise that is still pending when the schedule ends.
\<close>

fun runSchedule ::
  "(nat \<Rightarrow> rng) \<Rightarrow> nat list \<Rightarrow> manager \<Rightarrow> simulationStatistics outcome option" where
  "runSchedule rngs [] mgr = None"
| "runSchedule rngs (workerId # schedule) mgr =
     (case workerFinishes rngs workerId mgr of
        (mgr2, Some settled) \<Rightarrow> Some settled
      | (mgr2, None) \<Rightarrow> runSchedule rngs schedule mgr2)"

text \<open>
  The start of \<^verbatim>\<open>runCPUSimulation\<close>: the pool is (re-)created with every worker
  available, the task is registered with
  \<^verbatim>\<open>pendingSimulations = [0, ..., totalSimulations - 1]\<close> and empty buckets, and
  \<^verbatim>\<open>Math.min(this.availableWorkers.size, totalSimulations)\<close> simulations are assigned at
  once.
\<close>

definition initialManager :: "nat \<Rightarrow> operatorConfig \<Rightarrow> nat \<Rightarrow> nat \<Rightarrow> manager" where
  "initialManager totalSimulations operatorConfig basePity workerCount =
     (let mgr0 = \<lparr>mgr_availableWorkers = [0..<workerCount],
                  mgr_activeTask = Some \<lparr>task_totalSimulations = totalSimulations,
                     task_completedSimulations = 0,
                     task_pendingSimulations = [0..<totalSimulations],
                     task_operatorConfig = operatorConfig, task_basePity = basePity,
                     task_drawsBucket = [], task_characterCounts = Map.empty\<rparr>,
                  mgr_posted = Map.empty\<rparr>;
          initialAssignments = min workerCount totalSimulations
      in fold (\<lambda>i. assignNextSimulation) [0..<initialAssignments] mgr0)"

text \<open>
  \<^verbatim>\<open>runCPUSimulation\<close>: after the start, the promise is settled by the handlers of the
  workers' messages.
\<close>

definition runCPUSimulation ::
  "nat \<Rightarrow> operatorConfig \<Rightarrow> nat \<Rightarrow> cpuEnv \<Rightarrow> simulationStatistics outcome option" where
  "runCPUSimulation totalSimulations operatorConfig basePity env =
     runSchedule (env_rngs env) (env_schedule env)
       (initialManager totalSimulations operatorConfig basePity (env_workerCount env))"



subsection \<open>The batched path\<close>

text \<open>
  The state of the result processing of \<^verbatim>\<open>runGPUSimulation\<close>: \<^verbatim>\<open>currentSim\<close>,
  \<^verbatim>\<open>drawsBucket\<close> and \<^verbatim>\<open>characterCounts\<close>.
\<close>

record gpuState =
  gpu_currentSim :: nat
  gpu_drawsBucket :: drawsBucket
  gpu_characterCounts :: "string \<rightharpoonup> nat"

text \<open>
  \<^verbatim>\<open>Object.fromEntries(Object.keys(operatorConfig).map(name => [name, 0]))\<close> and
  \<^verbatim>\<open>Object.keys(operator).every(n => operator[n] >= operatorConfig[n].target)\<close>.
\<close>

definition initOperator :: "operatorConfig \<Rightarrow> (string \<rightharpoonup> nat)" where
  "initOperator operatorConfig = map_of (map (\<lambda>(name, c). (name, 0)) operatorConfig)"

definition allTargetsReached :: "operatorConfig \<Rightarrow> (string \<rightharpoonup> nat) \<Rightarrow> bool" where
  "allTargetsReached operatorConfig operator =
     list_all (\<lambda>(n, c). case operator n of None \<Rightarrow> False | Some k \<Rightarrow> target c \<le> k)
       operatorConfig"

text \<open>
  The processing of one batch of results, in the order in which \<^verbatim>\<open>results.pop()\<close>
  delivers them:
  \<^verbatim>\<open>while (results.length > 0) { operator = zeros; totalDraws = 0; for (;;) { result = results.pop(); if (!result) break; if (name in operator) { operator[name]++; totalDraws += result.draws; characterCounts[name] = (characterCounts[name] || 0) + 1; } if (every target reached) { drawsBucket[totalDraws] = (drawsBucket[totalDraws] || 0) + 1; if (++currentSim >= totalSimulations) { while (results.pop()) { } } break; } } }\<close>.
  The two loops are one recursion over the results: when the inner loop ends with a
  completed trial the outer one starts the next trial with fresh counters, and when the
  results run out both loops end (the counters of the unfinished trial are dropped).
  The bucket update \<^verbatim>\<open>(drawsBucket[totalDraws] || 0) + 1\<close> is the increment of the
  worker-pool path: an absent entry or the entry 0 becomes 1.
\<close>

fun processResults ::
  "operatorConfig \<Rightarrow> nat \<Rightarrow> (string \<times> nat) list \<Rightarrow> (string \<rightharpoonup> nat) \<Rightarrow> nat \<Rightarrow> gpuState
     \<Rightarrow> gpuState" where
  "processResults operatorConfig totalSimulations [] operator totalDraws st = st"
| "processResults operatorConfig totalSimulations ((name, draws) # results) operator totalDraws st =
     (let known = (operator name \<noteq> None);
          operator2 = (if known then operator(name \<mapsto> the (operator name) + 1) else operator);
          totalDraws2 = (if known then totalDraws + draws else totalDraws);
          st2 = (if known
                 then st\<lparr>gpu_characterCounts := (gpu_characterCounts st)
                           (name \<mapsto> (case gpu_characterCounts st name of
                                        None \<Rightarrow> 0 | Some n \<Rightarrow> n) + 1)\<rparr>
                 else st)
      in if allTargetsReached operatorConfig operator2 then
           (let st3 = st2\<lparr>gpu_drawsBucket := bucketIncrement totalDraws2 (gpu_drawsBucket st2),
                          gpu_currentSim := gpu_currentSim st2 + 1\<rparr>
            in if totalSimulations \<le> gpu_currentSim st3 then st3
               else processResults operatorConfig totalSimulations results
                      (initOperator operatorConfig) 0 st3)
         else processResults operatorConfig totalSimulations results operator2 totalDraws2 st2)"

text \<open>
  The loop over the batches,
  \<^verbatim>\<open>for (let currentSim = 0; currentSim < totalSimulations;) { results = await this.gpuManager.runSimulation(newOperatorConfig); ... }\<close>:
  \<open>Some (Inl e)\<close> when a call throws, \<open>None\<close> when the given batches end before
  \<^verbatim>\<open>totalSimulations\<close> trials are complete.
\<close>

fun runGPULoop ::
  "operatorConfig \<Rightarrow> operatorInfo list \<Rightarrow> nat \<Rightarrow> nat \<Rightarrow> dispatch list \<Rightarrow> gpuState
     \<Rightarrow> (gpuError + gpuState) option" where
  "runGPULoop operatorConfig operators basePity totalSimulations [] st =
     (if gpu_currentSim st < totalSimulations then None else Some (Inr st))"
| "runGPULoop operatorConfig operators basePity totalSimulations (d # dispatches) st =
     (if gpu_currentSim st < totalSimulations then
        (case gpuRunSimulation operators basePity d of
           Inl e \<Rightarrow> Some (Inl e)
         | Inr results \<Rightarrow>
             runGPULoop operatorConfig operators basePity totalSimulations dispatches
               (processResults operatorConfig totalSimulations (rev results)
                  (initOperator operatorConfig) 0 st))
      else Some (Inr st))"

text \<open>
  The \<^verbatim>\<open>try\<close> block of \<^verbatim>\<open>runGPUSimulation\<close>: the categories are handed to the backend
  with \<^verbatim>\<open>weight: operatorConfig[name].weight || 1\<close>, and the loop starts with
  \<^verbatim>\<open>currentSim = 0\<close> and an empty bucket and empty counts of its own.
\<close>

definition runGPUBatches ::
  "nat \<Rightarrow> operatorConfig \<Rightarrow> nat \<Rightarrow> dispatch list \<Rightarrow> (gpuError + gpuState) option" where
  "runGPUBatches totalSimulations operatorConfig basePity dispatches =
     runGPULoop operatorConfig
       (map (\<lambda>(name, c). (name, if weight c = 0 then 1 else weight c)) operatorConfig)
       basePity totalSimulations dispatches
       \<lparr>gpu_currentSim = 0, gpu_drawsBucket = [], gpu_characterCounts = Map.empty\<rparr>"

text \<open>
  \<^verbatim>\<open>runGPUSimulation\<close>: the statistics are made from the bucket and the counts of the
  \<^verbatim>\<open>try\<close> block; when anything in it throws, the \<^verbatim>\<open>catch\<close> block returns
  \<^verbatim>\<open>this.runCPUSimulation(totalSimulations, operatorConfig, basePity, progressCallback)\<close>.
\<close>

definition runGPUSimulation ::
  "nat \<Rightarrow> operatorConfig \<Rightarrow> nat \<Rightarrow> dispatch list \<Rightarrow> cpuEnv
     \<Rightarrow> simulationStatistics outcome option" where
  "runGPUSimulation totalSimulations operatorConfig basePity dispatches env =
     (case runGPUBatches totalSimulations operatorConfig basePity dispatches of
        None \<Rightarrow> None
      | Some (Inl e) \<Rightarrow> runCPUSimulation totalSimulations operatorConfig basePity env
      | Some (Inr st) \<Rightarrow>
          Some (Resolved (makeStatistics (gpu_drawsBucket st) (gpu_characterCounts st)
                            totalSimulations)))"

subsection \<open>\<^verbatim>\<open>runSimulation\<close>\<close>

text \<open>
  \<^verbatim>\<open>Object.fromEntries(Object.entries(operatorConfig).sort(([, a], [, b]) => a.weight - b.weight))\<close>:
  the sort of an array is stable.
\<close>

definition sortConfig :: "operatorConfig \<Rightarrow> operatorConfig" where
  "sortConfig operatorConfig = sort_key (\<lambda>(name, c). weight c) operatorConfig"

text \<open>
  \<^verbatim>\<open>runSimulation\<close>: the configuration is sorted, then the batched path is taken
  \<^verbatim>\<open>if (this.isGPUEnabled && this.gpuManager.isAvailable())\<close> (the argument \<open>useGPU\<close>), and
  the worker-pool path otherwise.
\<close>

definition runSimulation ::
  "bool \<Rightarrow> nat \<Rightarrow> operatorConfig \<Rightarrow> nat \<Rightarrow> dispatch list \<Rightarrow> cpuEnv
     \<Rightarrow> simulationStatistics outcome option" where
  "runSimulation useGPU totalSimulations operatorConfig basePity dispatches env =
     (if useGPU
      then runGPUSimulation totalSimulations (sortConfig operatorConfig) basePity dispatches env
      else runCPUSimulation totalSimulations (sortConfig operatorConfig) basePity env)"

section \<open>Invariants of the two paths\<close>

text \<open>
  The invariant of the worker-pool path, for a run of \<open>N\<close> trials: while the task is
  active, the counts of the bucket add up to the number of completed trials, and every
  trial is either completed, or held by a worker that has not answered yet, or pending.
  A worker that holds a task is not in the set of available workers.
\<close>

definition cpuInvariant :: "nat \<Rightarrow> manager \<Rightarrow> bool" where
  "cpuInvariant N mgr =
     (case mgr_activeTask mgr of
        None \<Rightarrow> True
      | Some t \<Rightarrow>
          task_totalSimulations t = N
          \<and> bucketSum (task_drawsBucket t) = task_completedSimulations t
          \<and> finite (dom (mgr_posted mgr))
          \<and> task_completedSimulations t + card (dom (mgr_posted mgr))
              + length (task_pendingSimulations t) = N
          \<and> dom (mgr_posted mgr) \<inter> set (mgr_availableWorkers mgr) = {})"


text \<open>
  The invariant of the batched path: the counts of the bucket add up to \<^verbatim>\<open>currentSim\<close>,
  which does not exceed the number of requested trials.
\<close>

definition gpuInvariant :: "nat \<Rightarrow> gpuState \<Rightarrow> bool" where
  "gpuInvariant N st =
     (bucketSum (gpu_drawsBucket st) = gpu_currentSim st \<and> gpu_currentSim st \<le> N)"

section \<open>Concrete inputs\<close>


definition bucket123 :: drawsBucket where
  "bucket123 = [(1, 1), (2, 1), (3, 1)]"




definition cfgA2 :: operatorConfig where
  "cfgA2 = [(''A'', \<lparr>weight = 1, target = 2\<rparr>)]"





text \<open>
  A pool of one worker that finishes its task once; the random source of every trial
  gives 0 except for its fourth value, which is 0.9.
\<close>

definition envOneWorker :: cpuEnv where
  "envOneWorker = \<lparr>env_workerCount = 1, env_rngs = (\<lambda>simulationIndex. randomExcept 0 3 0.9),
     env_schedule = [0]\<rparr>"

section \<open>Results about the pity trial\<close>

text \<open>
  For random numbers in \<open>[0, 1)\<close> every roll is in \<open>[1, 100]\<close>, the second loop returns
  at the latest when \<^verbatim>\<open>currentProb\<close> has reached 100, and \<^verbatim>\<open>gatcha\<close> returns after at
  most \<open>100 - basePity\<close> rolls: the number of rolls when the first loop returns, one less
  when the second loop does.
\<close>

lemma rollChuhuo_bounds:
  assumes "0 \<le> u" and "u < 1"
  shows "1 \<le> rollChuhuo u" and "rollChuhuo u \<le> 100"
proof -
  show "1 \<le> rollChuhuo u" by (simp add: rollChuhuo_def)
  from assms(2) have "u * 100 < 100" by simp
  then have "\<lfloor>u * 100\<rfloor> < 100" by (simp add: floor_less_iff)
  then have "nat \<lfloor>u * 100\<rfloor> \<le> 99" by linarith
  then show "rollChuhuo u \<le> 100" by (simp add: rollChuhuo_def)
qed

lemma gatchaLoop2_returns:
  assumes "\<forall>k. rollChuhuo (rng k) \<le> 100"
  shows "\<exists>m. gatchaLoop2 rng basePity currentProb xunfang i
               = Some (xunfang + m - basePity, i + m + 1)
             \<and> (m = 0 \<or> currentProb + 2 * m < 100)"
proof (induction "100 - currentProb" arbitrary: currentProb xunfang i rule: less_induct)
  case less
  show ?case
  proof (cases "rollChuhuo (rng i) \<le> currentProb + 2")
    case True
    then have "gatchaLoop2 rng basePity currentProb xunfang i
                 = Some (xunfang + 0 - basePity, i + 0 + 1)"
      by (subst gatchaLoop2.simps) simp
    then show ?thesis by blast
  next
    case False
    from assms have "rollChuhuo (rng i) \<le> 100" by blast
    with False have lt: "currentProb + 2 < 100" by linarith
    then have "100 - (currentProb + 2) < 100 - currentProb" by simp
    from less [OF this, of "xunfang + 1" "i + 1"] obtain m where
      m: "gatchaLoop2 rng basePity (currentProb + 2) (xunfang + 1) (i + 1)
            = Some (xunfang + 1 + m - basePity, i + 1 + m + 1)"
      and b: "m = 0 \<or> currentProb + 2 + 2 * m < 100"
      by blast
    from False m have "gatchaLoop2 rng basePity currentProb xunfang i
                 = Some (xunfang + (m + 1) - basePity, i + (m + 1) + 1)"
      by (subst gatchaLoop2.simps) (simp add: add.commute add.left_commute)
    moreover from b lt have "currentProb + 2 * (m + 1) < 100" by arith
    ultimately show ?thesis by blast
  qed
qed

lemma gatchaLoop1_result:
  "case gatchaLoop1 rng basePity currentProb xunfang i of
     Return d j \<Rightarrow>
       xunfang < 50 \<and> i < j \<and> j - i \<le> 50 - xunfang \<and> d = xunfang + (j - i) - basePity
   | Fallthrough x j \<Rightarrow> x = max xunfang 50 \<and> i \<le> j \<and> j - i = x - xunfang"
proof (induction rng basePity currentProb xunfang i rule: gatchaLoop1.induct)
  case (1 rng basePity currentProb xunfang i)
  show ?case
  proof (cases "xunfang < 50")
    case False
    then show ?thesis by (subst gatchaLoop1.simps) (simp add: max_def)
  next
    case True
    show ?thesis
    proof (cases "rollChuhuo (rng i) \<le> currentProb")
      case hit: True
      with True show ?thesis by (subst gatchaLoop1.simps) simp
    next
      case miss: False
      with True have eq: "gatchaLoop1 rng basePity currentProb xunfang i
                   = gatchaLoop1 rng basePity currentProb (xunfang + 1) (i + 1)"
        by (subst gatchaLoop1.simps) simp
      show ?thesis
      proof (cases "gatchaLoop1 rng basePity currentProb (xunfang + 1) (i + 1)")
        case (Return d j)
        with "1.IH" [OF True miss]
        have "xunfang + 1 < 50" "i + 1 < j" "j - (i + 1) \<le> 50 - (xunfang + 1)"
          "d = xunfang + 1 + (j - (i + 1)) - basePity" by simp_all
        then have "xunfang < 50 \<and> i < j \<and> j - i \<le> 50 - xunfang
                   \<and> d = xunfang + (j - i) - basePity" by arith
        with Return show ?thesis by (simp add: eq)
      next
        case (Fallthrough x j)
        with "1.IH" [OF True miss]
        have "x = max (xunfang + 1) 50" "i + 1 \<le> j" "j - (i + 1) = x - (xunfang + 1)"
          by simp_all
        with True have "x = max xunfang 50 \<and> i \<le> j \<and> j - i = x - xunfang"
          by (simp add: max_def; arith)
        with Fallthrough show ?thesis by (simp add: eq)
      qed
    qed
  qed
qed

lemma gatcha_returns:
  assumes r: "\<forall>k. 0 \<le> rng k \<and> rng k < 1" and b: "basePity \<le> 99"
  shows "\<exists>d j. gatcha rng basePity i = Some (d, j)
               \<and> i < j \<and> j - i \<le> 100 - basePity \<and> d \<le> 100 - basePity
               \<and> (d = j - i \<or> d + 1 = j - i)"
proof -
  define cp where "cp = (if basePity < 50 then 2 else 2 + (basePity - 50) * 2)"
  from r have roll: "\<forall>k. rollChuhuo (rng k) \<le> 100"
    using rollChuhuo_bounds(2) by blast
  have g: "gatcha rng basePity i =
             (case gatchaLoop1 rng basePity cp basePity i of
                Return d j \<Rightarrow> Some (d, j)
              | Fallthrough xunfang j \<Rightarrow> gatchaLoop2 rng basePity cp xunfang j)"
    unfolding gatcha_def cp_def by (rule refl)
  show ?thesis
  proof (cases "gatchaLoop1 rng basePity cp basePity i")
    case (Return d j)
    with gatchaLoop1_result [where rng = rng and basePity = basePity and currentProb = cp
        and xunfang = basePity and i = i]
    have "basePity < 50" "i < j" "j - i \<le> 50 - basePity" "d = basePity + (j - i) - basePity"
      by simp_all
    then have "i < j \<and> j - i \<le> 100 - basePity \<and> d \<le> 100 - basePity \<and> d = j - i"
      by arith
    moreover from Return g have "gatcha rng basePity i = Some (d, j)" by simp
    ultimately show ?thesis by blast
  next
    case (Fallthrough x j)
    with gatchaLoop1_result [where rng = rng and basePity = basePity and currentProb = cp
        and xunfang = basePity and i = i]
    have f: "x = max basePity 50" "i \<le> j" "j - i = x - basePity" by simp_all
    from gatchaLoop2_returns [where rng = rng and basePity = basePity and currentProb = cp
        and xunfang = x and i = j, OF roll]
    obtain m where
      m: "gatchaLoop2 rng basePity cp x j = Some (x + m - basePity, j + m + 1)"
      and mb: "m = 0 \<or> cp + 2 * m < 100" by blast
    from Fallthrough m g have g2: "gatcha rng basePity i = Some (x + m - basePity, j + m + 1)"
      by simp
    have "i < j + m + 1 \<and> j + m + 1 - i \<le> 100 - basePity
        \<and> x + m - basePity \<le> 100 - basePity
        \<and> x + m - basePity + 1 = j + m + 1 - i"
    proof (cases "basePity < 50")
      case True
      with mb have "m \<le> 48" by (simp add: cp_def; arith)
      with True f show ?thesis by (simp add: max_def; arith)
    next
      case False
      with mb b have "m = 0 \<or> m + basePity < 99" by (simp add: cp_def; arith)
      with False f b show ?thesis by (simp add: max_def; arith)
    qed
    with g2 show ?thesis by blast
  qed
qed

text \<open>
  C1. The claim: for every \<open>basePity\<close> in \<open>[0,99]\<close>, \<^verbatim>\<open>gatcha(basePity)\<close> terminates within
  \<open>100 - basePity\<close> iterations and returns a value in \<open>[1, 100 - basePity]\<close>, never 0.
  Termination and the upper bound hold (\<open>gatcha_returns\<close>), the lower bound does not:
  with \<open>basePity = 50\<close> the first loop is skipped, and the second loop returns
  \<^verbatim>\<open>xunfang - basePity\<close> before it increments \<^verbatim>\<open>xunfang\<close>; when the first random number is
  \<open>0\<close> (so that \<^verbatim>\<open>chuhuo = 1 <= 4\<close>) one draw is made and \<^verbatim>\<open>gatcha\<close> returns 0.
\<close>

theorem gatcha_returns_zero_at_50:
  "gatcha (constantRandom 0) 50 0 = Some (0, 1)"
  by (simp add: gatcha_def gatchaLoop1.simps gatchaLoop2.simps rollChuhuo_def constantRandom_def)

section \<open>Results about the trial runner\<close>





section \<open>Results about the streaming aggregator\<close>

lemma bucketEntries_bucket123: "bucketEntries bucket123 = [(1, 1), (2, 1), (3, 1)]"
  by (simp add: bucketEntries_def bucket123_def)

text \<open>
  C7. The claim: the median is the draws value of the \<open>\<lceil>total/2\<rceil>\<close>-th element, and p75 that
  of the \<open>\<lceil>total \<times> 0.75\<rceil>\<close>-th. The code walks to the first entry whose cumulative count
  reaches \<^verbatim>\<open>Math.floor(totalCount / 2)\<close> (and \<^verbatim>\<open>Math.floor(totalCount * 0.75)\<close>). For the
  bucket \<open>{1: 1, 2: 1, 3: 1}\<close> (the outcomes 1, 2, 3; mean 2) the second element is 2 and the
  third is 3, but \<^verbatim>\<open>calculateStatisticalData\<close> returns the median 1 and p75 = 2.
\<close>

theorem calculateStatisticalData_median_floor:
  "map_option (\<lambda>s. (sd_mean s, sd_median s, sd_p25 s, sd_p75 s))
     (calculateStatisticalData bucket123) = Some (2, 1, 1, 2)"
  by (simp add: calculateStatisticalData_def bucketEntries_bucket123 Let_def)




text \<open>
  On the worker-pool path the counter of a category is the number of reward events that
  the folded (completed) trials had for it.
\<close>

lemma countOf_addCharacterCounts:
  "countOf (addCharacterCounts resultCounts taskCounts) char =
     countOf taskCounts char + countOf resultCounts char"
  by (simp add: countOf_def addCharacterCounts_def split: option.splits)

lemma countOf_fold_foldResult:
  "countOf (task_characterCounts (fold foldResult results t)) char =
     countOf (task_characterCounts t) char
       + sum_list (map (\<lambda>r. countOf (res_characterCounts r) char) results)"
  by (induction results arbitrary: t)
     (simp_all add: foldResult_def countOf_addCharacterCounts)



section \<open>Results about the probability tables\<close>

lemma pmfStep_fold:
  assumes "fold (\<lambda>pity. pmfStep (P pity) pity) [a..<b] (pmf, s) = (pmf', s')"
    and "a \<le> b" and "b \<le> length pmf"
  shows "length pmf' = length pmf \<and> (\<forall>i<a. pmf' ! i = pmf ! i) \<and> (\<forall>i\<ge>b. pmf' ! i = pmf ! i)
         \<and> sum_list (take b pmf') + s' = sum_list (take a pmf) + s"
  using assms
proof (induction b arbitrary: pmf' s')
  case 0
  then show ?case by simp
next
  case (Suc b)
  show ?case
  proof (cases "a = Suc b")
    case True
    with Suc.prems show ?thesis by simp
  next
    case False
    with Suc.prems have ab: "a \<le> b" by simp
    obtain q t where q: "fold (\<lambda>pity. pmfStep (P pity) pity) [a..<b] (pmf, s) = (q, t)"
      by (cases "fold (\<lambda>pity. pmfStep (P pity) pity) [a..<b] (pmf, s)")
    from Suc.IH [OF q ab] Suc.prems(3)
    have ih: "length q = length pmf" "\<forall>i<a. q ! i = pmf ! i" "\<forall>i\<ge>b. q ! i = pmf ! i"
      "sum_list (take b q) + t = sum_list (take a pmf) + s" by simp_all
    from Suc.prems(1) ab q have eq: "pmf' = q[b := t * P b]" "s' = t * (1 - P b)"
      by (simp_all add: pmfStep_def)
    have bq: "b < length q" using ih(1) Suc.prems(3) by simp
    have "take (Suc b) (q[b := t * P b]) = take b q @ [t * P b]"
      using bq by (simp add: take_Suc_conv_app_nth)
    then have "sum_list (take (Suc b) pmf') + s' = sum_list (take b q) + t"
      by (simp add: eq algebra_simps)
    with ih eq ab show ?thesis by (auto simp: nth_list_update)
  qed
qed

lemma buildPMF_props:
  "length buildPMF = 100" "sum_list buildPMF = 1" "buildPMF ! 0 = 1 / 50"
proof -
  let ?first = "\<lambda>pity. pmfStep ((\<lambda>_. 0.02) pity) pity"
  let ?second = "\<lambda>pity. pmfStep (softPityProbability pity) pity"
  obtain q t where q: "fold ?first [0..<50] (replicate 100 0, 1.0) = (q, t)"
    by (cases "fold ?first [0..<50] (replicate 100 0, 1.0)")
  obtain q1 t1 where q1: "fold ?first [0..<1] (replicate 100 0, 1.0) = (q1, t1)"
    by (cases "fold ?first [0..<1] (replicate 100 0, 1.0)")
  obtain r u where r: "fold ?second [50..<99] (q, t) = (r, u)"
    by (cases "fold ?second [50..<99] (q, t)")
  from pmfStep_fold [OF q] have qp: "length q = 100" "sum_list (take 50 q) + t = 1" by simp_all
  from q1 have q1v: "q1 ! 0 = 1 / 50" "length q1 = 100" by (auto simp: pmfStep_def)
  have "[0..<50] = [0..<1] @ [1..<50]" by (simp add: upt_add_eq_append [of 0 1 49, simplified])
  then have "fold (\<lambda>pity. pmfStep ((\<lambda>_. 0.02) pity) pity) [1..<50] (q1, t1) = (q, t)"
    using q q1 by simp
  from pmfStep_fold [OF this] q1v have q0: "q ! 0 = 1 / 50" by simp
  from pmfStep_fold [OF r] qp have rp: "length r = 100" "sum_list (take 99 r) + u = 1" "r ! 0 = q ! 0"
    by simp_all
  have b: "buildPMF = r[99 := u]" using q r by (simp add: buildPMF_def)
  show "length buildPMF = 100" by (simp add: b rp)
  show "buildPMF ! 0 = 1 / 50" by (simp add: b rp q0)
  have "r[99 := u] = take 99 r @ [u]"
    using rp(1) by (simp add: list_eq_iff_nth_eq nth_append nth_list_update)
  then show "sum_list buildPMF = 1" using rp(2) by (simp add: b)
qed

lemma buildCDF_fold:
  assumes "length pmf = 100" and "length cdf = 100" and "cdf ! 0 = pmf ! 0"
    and "1 \<le> k" and "k \<le> 100"
  shows "length (fold (\<lambda>i cdf. cdf[i := cdf ! (i - 1) + pmf ! i]) [1..<k] cdf) = 100
       \<and> (\<forall>j<k. fold (\<lambda>i cdf. cdf[i := cdf ! (i - 1) + pmf ! i]) [1..<k] cdf ! j
                   = sum_list (take (Suc j) pmf))"
  using assms(4,5)
proof (induction k)
  case 0
  then show ?case by simp
next
  case (Suc k)
  show ?case
  proof (cases "k = 0")
    case True
    have "take (Suc 0) pmf = [pmf ! 0]"
      using assms(1) by (cases pmf) simp_all
    with True assms show ?thesis by simp
  next
    case False
    let ?c = "fold (\<lambda>i cdf. cdf[i := cdf ! (i - 1) + pmf ! i]) [1..<k] cdf"
    from False Suc have ih: "length ?c = 100" "\<forall>j<k. ?c ! j = sum_list (take (Suc j) pmf)"
      by simp_all
    from False have k1: "k - 1 < k" by simp
    from ih(2) k1 have "?c ! (k - 1) = sum_list (take (Suc (k - 1)) pmf)"
      by blast
    with False have prev: "?c ! (k - 1) = sum_list (take k pmf)"
      by simp
    have "take (Suc k) pmf = take k pmf @ [pmf ! k]"
      using assms(1) Suc.prems by (simp add: take_Suc_conv_app_nth)
    then have new: "?c ! (k - 1) + pmf ! k = sum_list (take (Suc k) pmf)"
      using prev by simp
    have f: "fold (\<lambda>i cdf. cdf[i := cdf ! (i - 1) + pmf ! i]) [1..<Suc k] cdf
               = ?c[k := ?c ! (k - 1) + pmf ! k]"
      using False by simp
    have len: "length (?c[k := ?c ! (k - 1) + pmf ! k]) = 100"
      using ih(1) by simp
    have vals: "(?c[k := ?c ! (k - 1) + pmf ! k]) ! j = sum_list (take (Suc j) pmf)"
      if "j < Suc k" for j
    proof (cases "j = k")
      case True
      with new ih(1) Suc.prems show ?thesis by simp
    next
      case False
      with that have "j < k" by simp
      with ih(2) False show ?thesis by simp
    qed
    show ?thesis
      unfolding f using len vals by blast
  qed
qed


lemma buildCDF_props:
  assumes "length pmf = 100"
  shows "length (buildCDF pmf) = 100"
    and "j < 100 \<Longrightarrow> buildCDF pmf ! j = sum_list (take (Suc j) pmf)"
  using buildCDF_fold [of pmf "(replicate 100 0)[0 := pmf ! 0]" 100] assms
  by (simp_all add: buildCDF_def del: upt_rec_numeral)

lemma buildCDF_total: "buildCDF buildPMF ! 99 = 1"
  using buildCDF_props(2) [of buildPMF 99] buildPMF_props by simp

lemma gachaTable_values:
  "length (normalizeCDF (buildCDF buildPMF)) = 100"
  "normalizeCDF (buildCDF buildPMF) ! 0 = 1 / 50"
  "normalizeCDF (buildCDF buildPMF) ! 99 = 1"
proof -
  have len: "length (buildCDF buildPMF) = 100"
    using buildCDF_props(1) buildPMF_props(1) by simp
  have "take (Suc 0) buildPMF = [buildPMF ! 0]"
    using take_Suc_conv_app_nth [of 0 buildPMF] buildPMF_props(1) by simp
  then have c0: "buildCDF buildPMF ! 0 = 1 / 50"
    using buildCDF_props(2) [of buildPMF 0] buildPMF_props by simp
  show "length (normalizeCDF (buildCDF buildPMF)) = 100"
    by (simp add: normalizeCDF_def len)
  show "normalizeCDF (buildCDF buildPMF) ! 0 = 1 / 50"
    by (simp add: normalizeCDF_def len buildCDF_total c0)
  show "normalizeCDF (buildCDF buildPMF) ! 99 = 1"
    by (simp add: normalizeCDF_def len buildCDF_total)
qed

text \<open>
  The table at position 50: the survival of the first loop is \<open>0.98\<^sup>5\<^sup>0\<close>, and the table
  rises there by \<open>0.98\<^sup>5\<^sup>0 \<times> 6%\<close>.
\<close>

lemma pmfStep_fold_survival:
  "a \<le> b \<Longrightarrow> snd (fold (\<lambda>pity. pmfStep p pity) [a..<b] (pmf, s)) = s * (1 - p) ^ (b - a)"
proof (induction b)
  case 0
  then show ?case by simp
next
  case (Suc b)
  show ?case
  proof (cases "a = Suc b")
    case True
    then show ?thesis by simp
  next
    case False
    with Suc.prems have ab: "a \<le> b" by simp
    obtain q t where q: "fold (\<lambda>pity. pmfStep p pity) [a..<b] (pmf, s) = (q, t)"
      by (cases "fold (\<lambda>pity. pmfStep p pity) [a..<b] (pmf, s)")
    with Suc.IH ab have t: "t = s * (1 - p) ^ (b - a)" by simp
    from ab have "Suc b - a = Suc (b - a)" by simp
    with ab q t show ?thesis
      by (simp add: pmfStep_def)
  qed
qed

lemma buildPMF_position_50:
  "buildPMF ! 50 = (98 / 100) ^ 50 * softPityProbability 50"
  "sum_list (take 50 buildPMF) = 1 - (98 / 100) ^ 50"
proof -
  let ?first = "\<lambda>pity. pmfStep ((\<lambda>_. 0.02) pity) pity"
  let ?second = "\<lambda>pity. pmfStep (softPityProbability pity) pity"
  obtain q t where q: "fold ?first [0..<50] (replicate 100 0, 1.0) = (q, t)"
    by (cases "fold ?first [0..<50] (replicate 100 0, 1.0)")
  from pmfStep_fold_survival [of 0 50 "0.02" "replicate 100 0" 1] q
  have t: "t = (98 / 100) ^ 50" by (simp del: upt_rec_numeral)
  from pmfStep_fold [OF q] have qp: "length q = 100" "sum_list (take 50 q) + t = 1"
    by (simp_all del: upt_rec_numeral)
  obtain r u where r: "fold ?second [51..<99] (q[50 := t * softPityProbability 50],
                          t * (1 - softPityProbability 50)) = (r, u)"
    by (cases "fold ?second [51..<99] (q[50 := t * softPityProbability 50],
                          t * (1 - softPityProbability 50))")
  have "[50..<99] = 50 # [51..<99]" by (simp add: upt_conv_Cons)
  then have r': "fold ?second [50..<99] (q, t) = (r, u)"
    using r by (simp add: pmfStep_def del: upt_rec_numeral)
  from pmfStep_fold [OF r] qp(1)
  have rp: "length r = 100" "\<forall>i<51. r ! i = (q[50 := t * softPityProbability 50]) ! i"
    by (simp_all del: upt_rec_numeral)
  have b: "buildPMF = r[99 := u]" using q r' by (simp add: buildPMF_def del: upt_rec_numeral)
  from rp(2) have "r ! 50 = (q[50 := t * softPityProbability 50]) ! 50" by simp
  with qp(1) have r50: "r ! 50 = t * softPityProbability 50" by simp
  show "buildPMF ! 50 = (98 / 100) ^ 50 * softPityProbability 50"
    by (simp add: b r50 t)
  have "take 50 (r[99 := u]) = take 50 q"
    using rp qp(1) by (simp add: list_eq_iff_nth_eq)
  with qp(2) show "sum_list (take 50 buildPMF) = 1 - (98 / 100) ^ 50"
    by (simp add: b t)
qed

lemma gachaTable_position_50:
  "normalizeCDF (buildCDF buildPMF) ! 49 = 1 - (98 / 100) ^ 50"
  "normalizeCDF (buildCDF buildPMF) ! 50 = 1 - (98 / 100) ^ 50 + (98 / 100) ^ 50 * (6 / 100)"
proof -
  have len: "length (buildCDF buildPMF) = 100"
    using buildCDF_props(1) buildPMF_props(1) by simp
  have c49: "buildCDF buildPMF ! 49 = sum_list (take 50 buildPMF)"
    using buildCDF_props(2) [of buildPMF 49] buildPMF_props(1) by simp
  have "take 51 buildPMF = take 50 buildPMF @ [buildPMF ! 50]"
    using take_Suc_conv_app_nth [of 50 buildPMF] buildPMF_props(1) by simp
  moreover have "buildCDF buildPMF ! 50 = sum_list (take 51 buildPMF)"
    using buildCDF_props(2) [of buildPMF 50] buildPMF_props(1) by simp
  ultimately have c50: "buildCDF buildPMF ! 50 = sum_list (take 50 buildPMF) + buildPMF ! 50"
    by simp
  have n: "normalizeCDF (buildCDF buildPMF) ! j = buildCDF buildPMF ! j" if "j < 100" for j
    using that by (simp add: normalizeCDF_def len buildCDF_total)
  from n [of 49] c49 have e49:
    "normalizeCDF (buildCDF buildPMF) ! 49 = sum_list (take 50 buildPMF)"
    by simp
  from n [of 50] c50 have e50:
    "normalizeCDF (buildCDF buildPMF) ! 50 = sum_list (take 50 buildPMF) + buildPMF ! 50"
    by simp
  show "normalizeCDF (buildCDF buildPMF) ! 49 = 1 - (98 / 100) ^ 50"
    unfolding e49 by (rule buildPMF_position_50(2))
  have "buildPMF ! 50 = (98 / 100) ^ 50 * (6 / 100)"
    unfolding buildPMF_position_50(1) by (simp add: softPityProbability_def)
  then show "normalizeCDF (buildCDF buildPMF) ! 50
               = 1 - (98 / 100) ^ 50 + (98 / 100) ^ 50 * (6 / 100)"
    unfolding e50 buildPMF_position_50(2) by simp
qed

text \<open>
  C2. The claim: the hit probability that the PMF construction of
  \<^verbatim>\<open>buildProbabilityLookupTable\<close> uses at pity position \<open>p\<close> with \<open>50 \<le> p < 99\<close> is
  \<open>2% + 2% \<times> (p - 49)\<close>, the model that \<^verbatim>\<open>gatcha\<close> realizes. The code: the table uses
  \<open>0.02 + 0.02 \<times> (p - 48)\<close>, which is 6% at position 50 and already 100% at position 97,
  so that the cumulative table rises at position 50 by 6% of what is left below 1;
  whereas \<^verbatim>\<open>gatcha\<close> started at pity 0 compares its 51st roll (position 50) with
  \<^verbatim>\<open>currentProb = 4\<close>: the roll 4 hits (the call returns after 51 rolls) and the roll 5
  misses (with every other roll 100 the call runs on to the forced hit of its 99th roll,
  position 98).
\<close>

theorem table_soft_pity_differs_from_gatcha:
  "softPityProbability 50 = 6 / 100
   \<and> softPityProbability 97 = 1
   \<and> (let gachaTable = normalizeCDF (buildCDF buildPMF)
      in gachaTable ! 50 - gachaTable ! 49 = (6 / 100) * (1 - gachaTable ! 49)
         \<and> gachaTable ! 49 < 1)
   \<and> gatcha (randomExcept 0.99 50 0.03) 0 0 = Some (50, 51)
   \<and> gatcha (randomExcept 0.99 50 0.04) 0 0 = Some (98, 99)"
proof -
  have "softPityProbability 50 = 6 / 100" "softPityProbability 97 = 1"
    by (simp_all add: softPityProbability_def)
  moreover have "let gachaTable = normalizeCDF (buildCDF buildPMF)
      in gachaTable ! 50 - gachaTable ! 49 = (6 / 100) * (1 - gachaTable ! 49)
         \<and> gachaTable ! 49 < 1"
    unfolding Let_def gachaTable_position_50 by simp
  moreover have "gatcha (randomExcept 0.99 50 0.03) 0 0 = Some (50, 51)"
    "gatcha (randomExcept 0.99 50 0.04) 0 0 = Some (98, 99)"
    by (simp_all add: gatcha_def gatchaLoop1.simps gatchaLoop2.simps rollChuhuo_def
        randomExcept_def)
  ultimately show ?thesis by blast
qed

text \<open>
  C5. The claim: the table equals exactly 1.0 at index 99, also after the re-normalization
  for \<open>basePity > 0\<close>. The code divides the tail entries by
  \<^verbatim>\<open>1 - gachaTable[basePity - 1]\<close> without first subtracting \<^verbatim>\<open>gachaTable[basePity - 1]\<close>
  from them; for \<open>basePity = 1\<close> the factor is \<open>1 - 0.02\<close> and the last entry becomes
  \<open>1 / 0.98 = 50/49\<close>.
\<close>

theorem gachaTable_last_entry_basePity_1:
  "map_sum id (\<lambda>gachaTable. gachaTable ! 99) (buildGachaTable 1) = Inr (Num (50 / 49))"
  by (simp add: buildGachaTable_def Let_def jsDivide_def nth_append gachaTable_values
      del: upt_rec_numeral)

section \<open>Results about the runs\<close>

subsection \<open>The invariants\<close>

lemma bucketSum_bucketIncrement: "bucketSum (bucketIncrement d b) = bucketSum b + 1"
  by (induction b) (auto simp: bucketSum_def)

lemma processResults_invariant:
  assumes "gpuInvariant N st" and "gpu_currentSim st < N"
  shows "gpuInvariant N (processResults cfg N results operator totalDraws st)"
  using assms
proof (induction cfg N results operator totalDraws st rule: processResults.induct)
  case (1 cfg N operator totalDraws st)
  then show ?case by simp
next
  case (2 cfg N name draws results operator totalDraws st)
  then show ?case
    by (auto simp: Let_def gpuInvariant_def bucketSum_bucketIncrement)
qed

lemma processResults_difference:
  "int (bucketSum (gpu_drawsBucket (processResults cfg N results operator totalDraws st)))
     - int (gpu_currentSim (processResults cfg N results operator totalDraws st))
   = int (bucketSum (gpu_drawsBucket st)) - int (gpu_currentSim st)"
proof (induction results arbitrary: operator totalDraws st)
  case Nil
  then show ?case by simp
next
  case (Cons r results)
  obtain name draws where r: "r = (name, draws)" by (cases r)
  show ?case
    unfolding r by (simp add: Let_def bucketSum_bucketIncrement Cons.IH)
qed

lemma processResults_balance:
  "bucketSum (gpu_drawsBucket (processResults cfg N results operator totalDraws st))
     + gpu_currentSim st
   = bucketSum (gpu_drawsBucket st)
     + gpu_currentSim (processResults cfg N results operator totalDraws st)"
  using processResults_difference [of cfg N results operator totalDraws st] by linarith

lemma runGPULoop_invariant:
  assumes "gpuInvariant N st"
    and "runGPULoop cfg ops bp N ds st = Some (Inr st')"
  shows "bucketSum (gpu_drawsBucket st') = N"
  using assms
proof (induction ds arbitrary: st)
  case Nil
  then show ?case by (auto simp: gpuInvariant_def split: if_splits)
next
  case (Cons d ds)
  show ?case
  proof (cases "gpu_currentSim st < N")
    case True
    with Cons.prems(2) obtain results where
      r: "gpuRunSimulation ops bp d = Inr results"
      and l: "runGPULoop cfg ops bp N ds
                (processResults cfg N (rev results) (initOperator cfg) 0 st) = Some (Inr st')"
      by (auto split: sum.splits)
    from Cons.prems(1) True
    have "gpuInvariant N (processResults cfg N (rev results) (initOperator cfg) 0 st)"
      by (rule processResults_invariant)
    from Cons.IH [OF this l] show ?thesis .
  next
    case False
    with Cons.prems show ?thesis by (auto simp: gpuInvariant_def)
  qed
qed


lemma assignNextSimulation_invariant:
  assumes "cpuInvariant N mgr"
  shows "cpuInvariant N (assignNextSimulation mgr)"
proof (cases "mgr_activeTask mgr")
  case None
  with assms show ?thesis by (simp add: assignNextSimulation_def)
next
  case (Some t)
  show ?thesis
  proof (cases "task_pendingSimulations t = [] \<or> mgr_availableWorkers mgr = []")
    case True
    with Some assms show ?thesis by (auto simp: assignNextSimulation_def)
  next
    case False
    define w where "w = hd (mgr_availableWorkers mgr)"
    from False have wa: "w \<in> set (mgr_availableWorkers mgr)" by (simp add: w_def)
    from assms Some have inv:
      "task_totalSimulations t = N"
      "bucketSum (task_drawsBucket t) = task_completedSimulations t"
      "finite (dom (mgr_posted mgr))"
      "task_completedSimulations t + card (dom (mgr_posted mgr))
         + length (task_pendingSimulations t) = N"
      "dom (mgr_posted mgr) \<inter> set (mgr_availableWorkers mgr) = {}"
      by (simp_all add: cpuInvariant_def)
    from inv(5) wa have wd: "w \<notin> dom (mgr_posted mgr)" by blast
    from False obtain p ps where "task_pendingSimulations t = p # ps"
      by (cases "task_pendingSimulations t") auto
    with inv(4) inv(3) wd
    have sum: "task_completedSimulations t + card (insert w (dom (mgr_posted mgr)))
                 + length (tl (task_pendingSimulations t)) = N"
      by simp
    have disj: "insert w (dom (mgr_posted mgr)) \<inter> set (removeAll w (mgr_availableWorkers mgr)) = {}"
      using inv(5) by auto
    have eq: "assignNextSimulation mgr =
                mgr\<lparr>mgr_availableWorkers := removeAll w (mgr_availableWorkers mgr),
                    mgr_activeTask :=
                      Some (t\<lparr>task_pendingSimulations := tl (task_pendingSimulations t)\<rparr>),
                    mgr_posted := (mgr_posted mgr)(w \<mapsto> hd (task_pendingSimulations t))\<rparr>"
      using Some False by (simp add: assignNextSimulation_def w_def Let_def)
    show ?thesis
      unfolding eq using inv(1,2,3) sum disj by (simp add: cpuInvariant_def)
  qed
qed

lemma fold_assignNextSimulation_invariant:
  "cpuInvariant N mgr \<Longrightarrow> cpuInvariant N (fold (\<lambda>i. assignNextSimulation) xs mgr)"
  by (induction xs arbitrary: mgr) (simp_all add: assignNextSimulation_invariant)

lemma handleWorkerComplete_invariant:
  assumes inv: "cpuInvariant N (mgr\<lparr>mgr_posted := (mgr_posted mgr)(w \<mapsto> idx)\<rparr>)"
    and act: "mgr_activeTask mgr \<noteq> None"
    and nw: "mgr_posted mgr w = None"
    and h: "handleWorkerComplete w result mgr = (mgr', out)"
  shows "(out = None \<longrightarrow> cpuInvariant N mgr')
       \<and> (\<forall>s. out = Some (Resolved s) \<longrightarrow>
             bucketSum (stats_drawsBucket s) = N \<and> stats_totalSimulations s = N)"
proof -
  from act obtain t where t: "mgr_activeTask mgr = Some t" by blast
  define mgrB where "mgrB = mgr\<lparr>mgr_availableWorkers := setAdd w (mgr_availableWorkers mgr),
                                 mgr_activeTask := Some (foldResult result t)\<rparr>"
  from inv t have i:
      "task_totalSimulations t = N"
      "bucketSum (task_drawsBucket t) = task_completedSimulations t"
      "finite (dom (mgr_posted mgr))"
      "task_completedSimulations t + card (insert w (dom (mgr_posted mgr)))
         + length (task_pendingSimulations t) = N"
      "insert w (dom (mgr_posted mgr)) \<inter> set (mgr_availableWorkers mgr) = {}"
    by (simp_all add: cpuInvariant_def)
  from nw have wd: "w \<notin> dom (mgr_posted mgr)" by (simp add: domIff)
  with i(3) have card: "card (insert w (dom (mgr_posted mgr))) = Suc (card (dom (mgr_posted mgr)))"
    by simp
  have disj: "dom (mgr_posted mgr) \<inter> set (setAdd w (mgr_availableWorkers mgr)) = {}"
    using i(5) wd by (auto simp: setAdd_def)
  have invB: "cpuInvariant N mgrB"
    using i card disj
    by (simp add: cpuInvariant_def mgrB_def foldResult_def bucketSum_bucketIncrement)
  then have inv2: "cpuInvariant N (assignNextSimulation mgrB)"
    by (rule assignNextSimulation_invariant)
  show ?thesis
  proof (cases "mgr_activeTask (assignNextSimulation mgrB)")
    case None
    with h t inv2 show ?thesis
      by (auto simp: handleWorkerComplete_def mgrB_def Let_def)
  next
    case (Some t2)
    from inv2 Some have j:
      "task_totalSimulations t2 = N"
      "bucketSum (task_drawsBucket t2) = task_completedSimulations t2"
      "task_completedSimulations t2 \<le> N"
      by (auto simp: cpuInvariant_def)
    show ?thesis
    proof (cases "task_totalSimulations t2 \<le> task_completedSimulations t2")
      case True
      with j have "bucketSum (task_drawsBucket t2) = N" by simp
      with h t Some True j(1) show ?thesis
        by (auto simp: handleWorkerComplete_def mgrB_def Let_def completeTask_def
            makeStatistics_def)
    next
      case False
      with h t Some inv2 show ?thesis
        by (auto simp: handleWorkerComplete_def mgrB_def Let_def)
    qed
  qed
qed


lemma workerFinishes_invariant:
  assumes inv: "cpuInvariant N mgr"
    and w: "workerFinishes rngs w mgr = (mgr', out)"
  shows "(out = None \<longrightarrow> cpuInvariant N mgr')
       \<and> (\<forall>s. out = Some (Resolved s) \<longrightarrow>
             bucketSum (stats_drawsBucket s) = N \<and> stats_totalSimulations s = N)"
proof (cases "mgr_posted mgr w")
  case None
  with w inv show ?thesis by (simp add: workerFinishes_def)
next
  case (Some idx)
  note posted = Some
  show ?thesis
  proof (cases "mgr_activeTask mgr")
    case None
    with w inv posted show ?thesis by (simp add: workerFinishes_def)
  next
    case (Some t)
    note task = Some
    show ?thesis
    proof (cases "workerOnMessage (task_operatorConfig t) (task_basePity t) (rngs idx)")
      case None
      with w inv posted task show ?thesis by (simp add: workerFinishes_def)
    next
      case (Some msg)
      define mgrA where "mgrA = mgr\<lparr>mgr_posted := (mgr_posted mgr)(w := None)\<rparr>"
      from w posted task Some have h: "handleWorkerMessage w msg mgrA = (mgr', out)"
        by (simp add: workerFinishes_def mgrA_def)
      show ?thesis
      proof (cases msg)
        case (Complete result)
        have "(mgr_posted mgr)(w \<mapsto> idx) = mgr_posted mgr"
          using posted by (simp add: map_upd_triv)
        then have restore: "mgrA\<lparr>mgr_posted := (mgr_posted mgrA)(w \<mapsto> idx)\<rparr> = mgr"
          by (simp add: mgrA_def)
        have "(out = None \<longrightarrow> cpuInvariant N mgr')
             \<and> (\<forall>s. out = Some (Resolved s) \<longrightarrow>
                   bucketSum (stats_drawsBucket s) = N \<and> stats_totalSimulations s = N)"
        proof (rule handleWorkerComplete_invariant [of N mgrA w idx result])
          show "cpuInvariant N (mgrA\<lparr>mgr_posted := (mgr_posted mgrA)(w \<mapsto> idx)\<rparr>)"
            using restore inv by simp
          show "mgr_activeTask mgrA \<noteq> None" using task by (simp add: mgrA_def)
          show "mgr_posted mgrA w = None" by (simp add: mgrA_def)
          show "handleWorkerComplete w result mgrA = (mgr', out)"
            using h Complete by (simp add: handleWorkerMessage_def)
        qed
        then show ?thesis .
      next
        case (ErrorMessage e)
        with h task show ?thesis
          by (auto simp: handleWorkerMessage_def handleWorkerError_def mgrA_def)
      qed
    qed
  qed
qed

lemma runSchedule_invariant:
  assumes "cpuInvariant N mgr"
    and "runSchedule rngs schedule mgr = Some (Resolved s)"
  shows "bucketSum (stats_drawsBucket s) = N \<and> stats_totalSimulations s = N"
  using assms
proof (induction schedule arbitrary: mgr)
  case Nil
  then show ?case by simp
next
  case (Cons w schedule)
  obtain mgr2 out where wf: "workerFinishes rngs w mgr = (mgr2, out)"
    by (cases "workerFinishes rngs w mgr")
  from workerFinishes_invariant [OF Cons.prems(1) wf]
  have step: "out = None \<longrightarrow> cpuInvariant N mgr2"
    "\<forall>s. out = Some (Resolved s) \<longrightarrow>
       bucketSum (stats_drawsBucket s) = N \<and> stats_totalSimulations s = N"
    by simp_all
  show ?case
  proof (cases out)
    case None
    with Cons.prems(2) wf have "runSchedule rngs schedule mgr2 = Some (Resolved s)" by simp
    with Cons.IH step(1) None show ?thesis by blast
  next
    case (Some settled)
    with Cons.prems(2) wf have "settled = Resolved s" by simp
    with step(2) Some show ?thesis by simp
  qed
qed

lemma initialManager_invariant:
  "cpuInvariant N (initialManager N cfg bp workerCount)"
proof -
  have "cpuInvariant N \<lparr>mgr_availableWorkers = [0..<workerCount],
                  mgr_activeTask = Some \<lparr>task_totalSimulations = N,
                     task_completedSimulations = 0,
                     task_pendingSimulations = [0..<N],
                     task_operatorConfig = cfg, task_basePity = bp,
                     task_drawsBucket = [], task_characterCounts = Map.empty\<rparr>,
                  mgr_posted = Map.empty\<rparr>"
    by (simp add: cpuInvariant_def bucketSum_def)
  then show ?thesis
    unfolding initialManager_def Let_def by (rule fold_assignNextSimulation_invariant)
qed

lemma runCPUSimulation_resolved:
  assumes "runCPUSimulation N cfg bp env = Some (Resolved s)"
  shows "bucketSum (stats_drawsBucket s) = N \<and> stats_totalSimulations s = N"
  using initialManager_invariant assms
  unfolding runCPUSimulation_def by (rule runSchedule_invariant)







lemma runGPUSimulation_resolved:
  assumes "runGPUSimulation N cfg bp ds env = Some (Resolved s)"
  shows "bucketSum (stats_drawsBucket s) = N \<and> stats_totalSimulations s = N"
proof (cases "runGPUBatches N cfg bp ds")
  case None
  with assms show ?thesis by (simp add: runGPUSimulation_def)
next
  case (Some r)
  show ?thesis
  proof (cases r)
    case (Inl e)
    with Some assms have "runCPUSimulation N cfg bp env = Some (Resolved s)"
      by (simp add: runGPUSimulation_def)
    then show ?thesis by (rule runCPUSimulation_resolved)
  next
    case (Inr st)
    have "gpuInvariant N \<lparr>gpu_currentSim = 0, gpu_drawsBucket = [],
        gpu_characterCounts = Map.empty\<rparr>"
      by (simp add: gpuInvariant_def bucketSum_def)
    moreover from Some Inr have "runGPULoop cfg
        (map (\<lambda>(name, c). (name, if weight c = 0 then 1 else weight c)) cfg) bp N ds
        \<lparr>gpu_currentSim = 0, gpu_drawsBucket = [], gpu_characterCounts = Map.empty\<rparr>
        = Some (Inr st)"
      by (simp add: runGPUBatches_def)
    ultimately have "bucketSum (gpu_drawsBucket st) = N"
      by (rule runGPULoop_invariant)
    with Some Inr assms show ?thesis
      by (auto simp: runGPUSimulation_def makeStatistics_def)
  qed
qed

subsection \<open>Concrete runs\<close>

lemma firstHit_zero:
  "firstIndex jsNonNegative
     (generateGachaDifferences (map Num (normalizeCDF (buildCDF buildPMF))) 0 0) = Some 0"
proof -
  have "[0..<100] = 0 # [1..<100]" by (simp add: upt_conv_Cons del: upt_rec_numeral)
  then show ?thesis
    by (simp add: generateGachaDifferences_def gachaTable_values del: upt_rec_numeral)
qed

lemma gpuRunSimulation_one_lane:
  "gpuRunSimulation [(''A'', 1)] 0 (Lanes [(0, 0)]) = Inr [(''A'', 1)]"
  by (simp add: gpuRunSimulation_def buildGachaTable_def decodeLane_def firstHit_zero
      generateOperatorDifferences_def buildOperatorWeights_def List.map_filter_simps)

lemma gpuRunSimulation_two_lanes:
  "gpuRunSimulation [(''A'', 1)] 0 (Lanes [(0, 0), (0, 0)]) = Inr [(''A'', 1), (''A'', 1)]"
  by (simp add: gpuRunSimulation_def buildGachaTable_def decodeLane_def firstHit_zero
      generateOperatorDifferences_def buildOperatorWeights_def List.map_filter_simps)






lemma workerOnMessage_cfgA2: "workerOnMessage cfgA2 0 (randomExcept 0 3 0.9) =
   Some (Complete \<lparr>res_totalDraws = 2, res_characterCounts = [''A'' \<mapsto> 2]\<rparr>)"
  by (auto simp add: workerOnMessage_def chouShuTongJi_def chouShuTongJiLoop.simps checkCompletion_def
      initStatistic_def cfgA2_def gatcha_def gatchaLoop1.simps gatchaLoop2.simps rollChuhuo_def randomExcept_def
      weightedChoice_def incrStatistic_def)

lemma runCPUSimulation_cfgA2:
  "\<exists>s. runCPUSimulation 1 cfgA2 0 envOneWorker = Some (Resolved s)
     \<and> stats_drawsBucket s = [(2, 1)] \<and> stats_characterCounts s ''A'' = Some 2"
  by (simp add: runCPUSimulation_def initialManager_def envOneWorker_def assignNextSimulation_def
     workerFinishes_def workerOnMessage_cfgA2 handleWorkerMessage_def handleWorkerComplete_def foldResult_def setAdd_def
     completeTask_def makeStatistics_def addCharacterCounts_def)

lemma sortConfig_cfgA2: "sortConfig cfgA2 = cfgA2"
  by (simp add: sortConfig_def cfgA2_def)



lemma runSimulation_gpu_cfgA2:
  "\<exists>s. runSimulation True 1 cfgA2 0 [Lanes [(0, 0)], Lanes [(0, 0), (0, 0)]] envOneWorker
          = Some (Resolved s)
      \<and> stats_drawsBucket s = [(2, 1)] \<and> stats_characterCounts s ''A'' = Some 3
      \<and> stats_totalSimulations s = 1"
  by (simp add: runSimulation_def runGPUSimulation_def runGPUBatches_def sortConfig_def cfgA2_def
      gpuRunSimulation_one_lane gpuRunSimulation_two_lanes
      initOperator_def allTargetsReached_def makeStatistics_def)

subsection \<open>The bucket invariant\<close>

text \<open>
  C3. Whenever a run of \<open>N\<close> trials resolves, on either path and also after a fallback
  from the batched path to the worker pool, the counts of the returned bucket add up to
  exactly \<open>N\<close>. On the way, every fold of a completed trial on the worker-pool path adds
  one to the counts of the bucket and one to the number of completed trials, and the
  processing of a batch on the batched path adds the same number to the counts of the
  bucket and to \<^verbatim>\<open>currentSim\<close>: the sum of the bucket is the number of completed trials
  after every fold.
\<close>

theorem bucket_sum_equals_trials:
  assumes "runSimulation useGPU N cfg bp ds env = Some (Resolved s)"
  shows "bucketSum (stats_drawsBucket s) = N
       \<and> bucketSum (task_drawsBucket (foldResult result t)) = bucketSum (task_drawsBucket t) + 1
       \<and> task_completedSimulations (foldResult result t) = task_completedSimulations t + 1
       \<and> bucketSum (gpu_drawsBucket (processResults cfg' N' results operator totalDraws st))
             + gpu_currentSim st
           = bucketSum (gpu_drawsBucket st)
             + gpu_currentSim (processResults cfg' N' results operator totalDraws st)"
proof -
  from assms have "bucketSum (stats_drawsBucket s) = N"
    using runGPUSimulation_resolved runCPUSimulation_resolved
    by (auto simp: runSimulation_def split: if_splits)
  then show ?thesis
    by (simp add: foldResult_def bucketSum_bucketIncrement processResults_balance)
qed

theorem bucket_sum_equals_trials_witness:
  "(\<exists>s. runSimulation False 1 cfgA2 0 [] envOneWorker = Some (Resolved s)
        \<and> bucketSum (stats_drawsBucket s) = 1)
 \<and> (\<exists>s. runSimulation True 1 cfgA2 0 [Lanes [(0, 0)], Lanes [(0, 0), (0, 0)]] envOneWorker
            = Some (Resolved s)
        \<and> bucketSum (stats_drawsBucket s) = 1)"
proof
  from runCPUSimulation_cfgA2 obtain s where
    r: "runSimulation False 1 cfgA2 0 [] envOneWorker = Some (Resolved s)"
    by (auto simp: runSimulation_def sortConfig_cfgA2)
  from bucket_sum_equals_trials [OF r] have "bucketSum (stats_drawsBucket s) = 1"
    by (rule conjunct1)
  with r show "\<exists>s. runSimulation False 1 cfgA2 0 [] envOneWorker = Some (Resolved s)
        \<and> bucketSum (stats_drawsBucket s) = 1" by blast
next
  from runSimulation_gpu_cfgA2 obtain s where
    r: "runSimulation True 1 cfgA2 0 [Lanes [(0, 0)], Lanes [(0, 0), (0, 0)]] envOneWorker
       = Some (Resolved s)" by blast
  from bucket_sum_equals_trials [OF r] have "bucketSum (stats_drawsBucket s) = 1"
    by (rule conjunct1)
  with r show "\<exists>s. runSimulation True 1 cfgA2 0 [Lanes [(0, 0)], Lanes [(0, 0), (0, 0)]]
                envOneWorker = Some (Resolved s)
        \<and> bucketSum (stats_drawsBucket s) = 1" by blast
qed

subsection \<open>The per-category counters on the batched path\<close>

text \<open>
  C6. The claim: the per-category counters add up to the number of reward events of
  completed trials only, on both paths. The code of the batched path: for the single
  category \<open>A\<close> with target 2 and one requested trial, let the first batch deliver one
  reward event and the second batch two. The event of the first batch starts a trial that
  is dropped when the batch ends; the two events of the second batch make the one
  completed trial (bucket \<open>{2: 1}\<close>). \<^verbatim>\<open>characterCounts.A\<close> is 3: the event of the dropped
  trial was counted.
\<close>

theorem gpu_counts_unfinished_trial:
  "map_option (map_outcome (\<lambda>s. (stats_drawsBucket s, stats_characterCounts s ''A'',
       stats_totalSimulations s)))
     (runSimulation True 1 cfgA2 0 [Lanes [(0, 0)], Lanes [(0, 0), (0, 0)]] envOneWorker)
   = Some (Resolved ([(2, 1)], Some 3, 1))"
  by (simp add: runSimulation_def runGPUSimulation_def runGPUBatches_def sortConfig_def cfgA2_def
      gpuRunSimulation_one_lane gpuRunSimulation_two_lanes
      initOperator_def allTargetsReached_def makeStatistics_def)

subsection \<open>The fallback from the batched path\<close>




subsection \<open>The order of the categories\<close>






end
